theory Spec2Isabelle
  imports Complex_Main "HOL-Library.Sublist"
begin

section \<open>Regular expressions of the source, with a backtracking matcher\<close>

text \<open>
  The video showcase recognises YouTube links with two JavaScript regular expressions.
  They are kept here as syntax trees and run by a matcher that explores alternatives in
  the order a backtracking engine does: the left alternative first, the longest
  repetition first. Strings are lists of 8-bit characters; a character class is a
  predicate on characters. A match reports the matched text followed by the texts of
  the capture groups, as the array returned by \<^verbatim>\<open>String.prototype.match\<close> does.
  \<open>js_match\<close> is that method for a pattern without flags: it tries the positions
  of the string from left to right and stops at the first where the pattern matches.
  The dot of a pattern matches every character but a line terminator; among 8-bit
  characters these are line feed and carriage return.
\<close>

datatype regex =
    Chars string
  | Or regex regex
  | Then regex regex
  | ZeroOrMore "char \<Rightarrow> bool"
  | OneOrMore "char \<Rightarrow> bool"
  | Capture regex

primrec greedy :: "nat \<Rightarrow> (nat \<Rightarrow> 'a option) \<Rightarrow> 'a option" where
  "greedy 0 k = k 0"
| "greedy (Suc n) k = (case k (Suc n) of Some r \<Rightarrow> Some r | None \<Rightarrow> greedy n k)"

primrec rmatch ::
  "regex \<Rightarrow> string \<Rightarrow> string list \<Rightarrow> (string \<Rightarrow> string list \<Rightarrow> string list option)
     \<Rightarrow> string list option" where
  "rmatch (Chars l) s caps k = (if prefix l s then k (drop (length l) s) caps else None)"
| "rmatch (Or a b) s caps k =
     (case rmatch a s caps k of Some r \<Rightarrow> Some r | None \<Rightarrow> rmatch b s caps k)"
| "rmatch (Then a b) s caps k = rmatch a s caps (\<lambda>s' caps'. rmatch b s' caps' k)"
| "rmatch (ZeroOrMore c) s caps k =
     greedy (length (takeWhile c s)) (\<lambda>n. k (drop n s) caps)"
| "rmatch (OneOrMore c) s caps k =
     greedy (length (takeWhile c s)) (\<lambda>n. if n = 0 then None else k (drop n s) caps)"
| "rmatch (Capture a) s caps k =
     rmatch a s caps (\<lambda>s' caps'. k s' (caps' @ [take (length s - length s') s]))"

definition match_at :: "regex \<Rightarrow> string \<Rightarrow> string list option" where
  "match_at r s = rmatch r s [] (\<lambda>s' caps. Some (take (length s - length s') s # caps))"

fun js_match :: "regex \<Rightarrow> string \<Rightarrow> string list option" where
  "js_match r [] = match_at r []"
| "js_match r (c # cs) =
     (case match_at r (c # cs) of Some m \<Rightarrow> Some m | None \<Rightarrow> js_match r cs)"

section \<open>VideoShowcase: extractYouTubeId\<close>

definition id_char :: "char \<Rightarrow> bool" where
  "id_char c = (c \<noteq> CHR ''&'' \<and> c \<noteq> CHR 0x0A \<and> c \<noteq> CHR ''?'' \<and> c \<noteq> CHR ''#'')"

definition dot_char :: "char \<Rightarrow> bool" where
  "dot_char c = (c \<noteq> CHR 0x0A \<and> c \<noteq> CHR 0x0D)"

definition markers :: "string list" where
  "markers = [''youtube.com/watch?v='', ''youtu.be/'', ''youtube.com/embed/'']"

definition alts :: regex where
  "alts = Or (Chars ''youtube.com/watch?v='')
            (Or (Chars ''youtu.be/'') (Chars ''youtube.com/embed/''))"

definition pattern1 :: regex where
  "pattern1 = Then alts (Capture (OneOrMore id_char))"

definition pattern2 :: regex where
  "pattern2 =
     Then (Chars ''youtube.com/watch?'')
       (Then (ZeroOrMore dot_char)
          (Then (Chars ''v='') (Capture (OneOrMore id_char))))"

definition patterns :: "regex list" where
  "patterns = [pattern1, pattern2]"

fun first_match :: "regex list \<Rightarrow> string \<Rightarrow> string option" where
  "first_match [] url = None"
| "first_match (p # ps) url =
     (case js_match p url of Some m \<Rightarrow> Some (m ! 1) | None \<Rightarrow> first_match ps url)"

definition extractYouTubeId :: "string \<Rightarrow> string option" where
  "extractYouTubeId url = first_match patterns url"

definition no_marker_before :: "string \<Rightarrow> nat \<Rightarrow> bool" where
  "no_marker_before url n =
     list_all (\<lambda>i. list_all (\<lambda>m. \<not> prefix m (drop i url)) markers) [0..<n]"


section \<open>JavaScript values used by the components\<close>

text \<open>
  A JavaScript number is NaN, an infinity or a finite value. Finite values are real
  numbers here: the rounding of double arithmetic and the sign of zero are left out.
  An object literal is an association list in insertion order; a property holding
  \<^verbatim>\<open>undefined\<close> is still a key of its object.
\<close>

datatype jsnum = NaN | PosInf | NegInf | Num real

datatype jsval = Undefined | Str string | Number jsnum | Obj "(string \<times> jsval) list"

type_synonym jsobject = "(string \<times> jsval) list"

fun js_div :: "jsnum \<Rightarrow> jsnum \<Rightarrow> jsnum" where
  "js_div NaN y = NaN"
| "js_div x NaN = NaN"
| "js_div (Num x) (Num y) =
     (if y = 0 then (if x = 0 then NaN else if 0 < x then PosInf else NegInf)
      else Num (x / y))"
| "js_div (Num x) y = Num 0"
| "js_div PosInf (Num y) = (if 0 \<le> y then PosInf else NegInf)"
| "js_div NegInf (Num y) = (if 0 \<le> y then NegInf else PosInf)"
| "js_div x y = NaN"

fun js_mul :: "jsnum \<Rightarrow> jsnum \<Rightarrow> jsnum" where
  "js_mul NaN y = NaN"
| "js_mul x NaN = NaN"
| "js_mul (Num x) (Num y) = Num (x * y)"
| "js_mul (Num x) PosInf = (if x = 0 then NaN else if 0 < x then PosInf else NegInf)"
| "js_mul (Num x) NegInf = (if x = 0 then NaN else if 0 < x then NegInf else PosInf)"
| "js_mul PosInf (Num y) = (if y = 0 then NaN else if 0 < y then PosInf else NegInf)"
| "js_mul NegInf (Num y) = (if y = 0 then NaN else if 0 < y then NegInf else PosInf)"
| "js_mul PosInf PosInf = PosInf"
| "js_mul NegInf NegInf = PosInf"
| "js_mul x y = NegInf"

fun js_ge :: "jsnum \<Rightarrow> jsnum \<Rightarrow> bool" where
  "js_ge NaN y = False"
| "js_ge x NaN = False"
| "js_ge PosInf y = True"
| "js_ge x NegInf = True"
| "js_ge (Num x) (Num y) = (y \<le> x)"
| "js_ge x y = False"

fun Math_round :: "jsnum \<Rightarrow> jsnum" where
  "Math_round (Num x) = Num (of_int \<lfloor>x + 1 / 2\<rfloor>)"
| "Math_round x = x"

fun obj_set :: "string \<Rightarrow> jsval \<Rightarrow> jsobject \<Rightarrow> jsobject" where
  "obj_set k v [] = [(k, v)]"
| "obj_set k v ((k', v') # ob) =
     (if k = k' then (k, v) # ob else (k', v') # obj_set k v ob)"

definition obj_spread :: "jsobject \<Rightarrow> jsobject \<Rightarrow> jsobject" where
  "obj_spread target src = foldl (\<lambda>ob (k, v). obj_set k v ob) target src"

definition Object_keys :: "jsobject \<Rightarrow> string list" where
  "Object_keys ob = map fst ob"

definition opt_str :: "string option \<Rightarrow> jsval" where
  "opt_str x = (case x of None \<Rightarrow> Undefined | Some t \<Rightarrow> Str t)"

definition opt_num :: "jsnum option \<Rightarrow> jsval" where
  "opt_num x = (case x of None \<Rightarrow> Undefined | Some n \<Rightarrow> Number n)"

section \<open>usePlausibleTracking\<close>

text \<open>
  The hook wraps the \<^verbatim>\<open>plausible\<close> function of the analytics SDK. The SDK is outside
  the repository: a call to it is recorded as an entry (event name, options) appended
  to a call log, where the options are an object or \<^verbatim>\<open>undefined\<close> (\<open>None\<close>).
  The optional arguments \<^verbatim>\<open>props\<close> and \<^verbatim>\<open>revenue\<close> are objects when given, and every
  object is truthy, so the tests \<^verbatim>\<open>if (props)\<close> and \<^verbatim>\<open>if (revenue)\<close> are tests
  for presence.
\<close>

record PlausibleRevenueData =
  amount :: jsnum
  currency :: string

record VideoEventProps =
  videoTitle :: "string option"
  videoPath_ev :: string
  duration :: "jsnum option"
  currentTime :: "jsnum option"
  percentComplete :: "jsnum option"

type_synonym plausible_call = "string \<times> jsobject option"

definition revenue_obj :: "PlausibleRevenueData \<Rightarrow> jsval" where
  "revenue_obj r = Obj [(''amount'', Number (amount r)), (''currency'', Str (currency r))]"

definition trackEvent ::
  "string \<Rightarrow> jsobject option \<Rightarrow> PlausibleRevenueData option
     \<Rightarrow> plausible_call list \<Rightarrow> plausible_call list" where
  "trackEvent eventName props revenue calls =
     (let eventData0 = [];
          eventData1 = (case props of
                          Some p \<Rightarrow> obj_set ''props'' (Obj p) eventData0
                        | None \<Rightarrow> eventData0);
          eventData = (case revenue of
                         Some r \<Rightarrow> obj_set ''revenue'' (revenue_obj r) eventData1
                       | None \<Rightarrow> eventData1)
      in calls @ [(eventName,
                   if 0 < length (Object_keys eventData) then Some eventData else None)])"

definition trackVideoPlay :: "VideoEventProps \<Rightarrow> plausible_call list \<Rightarrow> plausible_call list" where
  "trackVideoPlay props =
     trackEvent ''Video Play''
       (Some [(''videoTitle'', opt_str (videoTitle props)),
              (''videoPath'', Str (videoPath_ev props))]) None"

definition trackVideoPause :: "VideoEventProps \<Rightarrow> plausible_call list \<Rightarrow> plausible_call list" where
  "trackVideoPause props =
     trackEvent ''Video Pause''
       (Some [(''videoTitle'', opt_str (videoTitle props)),
              (''videoPath'', Str (videoPath_ev props)),
              (''currentTime'', opt_num (currentTime props)),
              (''percentComplete'', opt_num (percentComplete props))]) None"

definition trackVideoProgress ::
  "VideoEventProps \<Rightarrow> nat \<Rightarrow> plausible_call list \<Rightarrow> plausible_call list" where
  "trackVideoProgress props milestone =
     trackEvent ''Video Progress''
       (Some [(''videoTitle'', opt_str (videoTitle props)),
              (''videoPath'', Str (videoPath_ev props)),
              (''milestone'', Number (Num (real milestone))),
              (''percentComplete'', opt_num (percentComplete props))]) None"

definition trackVideoComplete :: "VideoEventProps \<Rightarrow> plausible_call list \<Rightarrow> plausible_call list" where
  "trackVideoComplete props =
     trackEvent ''Video Complete''
       (Some [(''videoTitle'', opt_str (videoTitle props)),
              (''videoPath'', Str (videoPath_ev props)),
              (''duration'', opt_num (duration props))]) None"


section \<open>VideoPlayer\<close>

text \<open>
  The component's state is the React state (\<^verbatim>\<open>useState\<close>), the refs
  (\<^verbatim>\<open>useRef\<close>) and the parts of the browser its handlers read and write: the video
  element behind \<^verbatim>\<open>videoRef\<close>, \<^verbatim>\<open>document.fullscreenElement\<close>, the log of calls to
  the analytics SDK, \<^verbatim>\<open>window.dataLayer\<close> (absent when no tag manager is loaded), the
  console, and the timers started by \<^verbatim>\<open>handlePlayClick\<close> that have not run yet.
  Each handler is a function from state to state. The handlers run in the browser, so
  the test \<^verbatim>\<open>typeof window !== 'undefined'\<close> of \<^verbatim>\<open>pushToDataLayer\<close> succeeds.
  Two handlers are left out: \<^verbatim>\<open>handleProgressClick\<close> only seeks the video element,
  and \<^verbatim>\<open>handleMouseMove\<close> only shows and hides the controls.
\<close>

record VideoPlayerProps =
  videoPath :: string
  title :: "string option"
  thumbnailPath :: "string option"
  gifPath :: "string option"
  className :: string

record HTMLVideoElement =
  v_currentTime :: jsnum
  v_duration :: jsnum
  v_paused :: bool
  v_muted :: bool

record VideoPlayerState =
  isPlaying :: bool
  isPaused :: bool
  isMuted :: bool
  isFullscreen :: bool
  progress :: jsnum
  showControls :: bool
  videoRef :: "HTMLVideoElement option"
  containerRef :: bool
  trackedMilestonesRef :: "nat set"
  hasTrackedPlayRef :: bool
  plausible :: "plausible_call list"
  dataLayer :: "jsobject list option"
  console :: "(string \<times> string) list"
  fullscreenElement :: bool
  pendingPlay :: nat

datatype promise_result = Resolved | Rejected string

definition pushToDataLayer :: "string \<Rightarrow> jsobject \<Rightarrow> VideoPlayerState \<Rightarrow> VideoPlayerState" where
  "pushToDataLayer eventName eventData s =
     (case dataLayer s of
        Some dl \<Rightarrow>
          s\<lparr>dataLayer := Some (dl @ [obj_spread [(''event'', Str eventName)] eventData])\<rparr>
      | None \<Rightarrow> s)"

definition getVideoEventProps :: "VideoPlayerProps \<Rightarrow> VideoPlayerState \<Rightarrow> VideoEventProps" where
  "getVideoEventProps p s =
     \<lparr>videoTitle = title p,
      videoPath_ev = videoPath p,
      duration = map_option v_duration (videoRef s),
      currentTime = map_option v_currentTime (videoRef s),
      percentComplete =
        Some (case videoRef s of
                Some video \<Rightarrow>
                  Math_round (js_mul (js_div (v_currentTime video) (v_duration video)) (Num 100))
              | None \<Rightarrow> Num 0)\<rparr>"

definition video_play :: "VideoPlayerState \<Rightarrow> VideoPlayerState" where
  "video_play s = s\<lparr>videoRef := map_option (\<lambda>v. v\<lparr>v_paused := False\<rparr>) (videoRef s)\<rparr>"

definition video_pause :: "VideoPlayerState \<Rightarrow> VideoPlayerState" where
  "video_pause s = s\<lparr>videoRef := map_option (\<lambda>v. v\<lparr>v_paused := True\<rparr>) (videoRef s)\<rparr>"

definition track_first_play :: "VideoPlayerProps \<Rightarrow> VideoPlayerState \<Rightarrow> VideoPlayerState" where
  "track_first_play p s =
     (if \<not> hasTrackedPlayRef s then
        (let props = getVideoEventProps p s;
             s1 = s\<lparr>plausible := trackVideoPlay props (plausible s)\<rparr>;
             s2 = pushToDataLayer ''video_start''
                    [(''video_title'', opt_str (videoTitle props)),
                     (''video_url'', Str (videoPath_ev props))] s1
         in s2\<lparr>hasTrackedPlayRef := True\<rparr>)
      else s)"

definition handlePlayClick :: "VideoPlayerState \<Rightarrow> VideoPlayerState" where
  "handlePlayClick s = s\<lparr>isPlaying := True, pendingPlay := Suc (pendingPlay s)\<rparr>"

definition playTimeout :: "VideoPlayerProps \<Rightarrow> VideoPlayerState \<Rightarrow> VideoPlayerState" where
  "playTimeout p s = track_first_play p (video_play s)"

definition togglePlayPause :: "VideoPlayerProps \<Rightarrow> VideoPlayerState \<Rightarrow> VideoPlayerState" where
  "togglePlayPause p s =
     (case videoRef s of
        None \<Rightarrow> s
      | Some video \<Rightarrow>
          if v_paused video then
            track_first_play p ((video_play s)\<lparr>isPaused := False\<rparr>)
          else
            (let s1 = (video_pause s)\<lparr>isPaused := True\<rparr>;
                 props = getVideoEventProps p s1;
                 s2 = s1\<lparr>plausible := trackVideoPause props (plausible s1)\<rparr>
             in pushToDataLayer ''video_pause''
                  [(''video_title'', opt_str (videoTitle props)),
                   (''video_url'', Str (videoPath_ev props)),
                   (''video_current_time'', opt_num (currentTime props)),
                   (''video_percent'', opt_num (percentComplete props))] s2))"

definition toggleMute :: "VideoPlayerState \<Rightarrow> VideoPlayerState" where
  "toggleMute s =
     (case videoRef s of
        None \<Rightarrow> s
      | Some video \<Rightarrow>
          s\<lparr>videoRef := Some (video\<lparr>v_muted := \<not> v_muted video\<rparr>),
            isMuted := \<not> v_muted video\<rparr>)"

text \<open>
  \<^verbatim>\<open>toggleFullscreen\<close> awaits the promise of the Fullscreen API inside a
  \<^verbatim>\<open>try\<close> block; the outcome of that promise is an argument. \<open>fullscreen_try\<close> is the
  block: it ends with \<open>Inl err\<close> when the promise rejects, before the state setter
  that follows the \<^verbatim>\<open>await\<close> is reached. A fulfilled request also changes
  \<^verbatim>\<open>document.fullscreenElement\<close>, as the browser does. \<open>toggleFullscreen\<close> is the
  whole handler with its \<^verbatim>\<open>catch\<close>; \<open>Inl\<close> in its result would be an exception
  leaving the handler.
\<close>

definition fullscreen_try :: "promise_result \<Rightarrow> VideoPlayerState \<Rightarrow> string + VideoPlayerState" where
  "fullscreen_try res s =
     (if \<not> fullscreenElement s then
        (case res of
           Rejected err \<Rightarrow> Inl err
         | Resolved \<Rightarrow> Inr (s\<lparr>fullscreenElement := True, isFullscreen := True\<rparr>))
      else
        (case res of
           Rejected err \<Rightarrow> Inl err
         | Resolved \<Rightarrow> Inr (s\<lparr>fullscreenElement := False, isFullscreen := False\<rparr>)))"

definition toggleFullscreen :: "promise_result \<Rightarrow> VideoPlayerState \<Rightarrow> string + VideoPlayerState" where
  "toggleFullscreen res s =
     (if \<not> containerRef s then Inr s
      else
        (case fullscreen_try res s of
           Inr s' \<Rightarrow> Inr s'
         | Inl err \<Rightarrow> Inr (s\<lparr>console := console s @ [(''Fullscreen error:'', err)]\<rparr>)))"

definition handleFullscreenChange :: "VideoPlayerState \<Rightarrow> VideoPlayerState" where
  "handleFullscreenChange s = s\<lparr>isFullscreen := fullscreenElement s\<rparr>"

definition milestones :: "nat list" where
  "milestones = [25, 50, 75]"

definition milestone_step ::
  "VideoPlayerProps \<Rightarrow> jsnum \<Rightarrow> VideoPlayerState \<Rightarrow> nat \<Rightarrow> VideoPlayerState" where
  "milestone_step p currentProgress s milestone =
     (if js_ge currentProgress (Num (real milestone)) \<and> milestone \<notin> trackedMilestonesRef s then
        (let s1 = s\<lparr>trackedMilestonesRef := insert milestone (trackedMilestonesRef s)\<rparr>;
             props = getVideoEventProps p s1;
             s2 = s1\<lparr>plausible := trackVideoProgress props milestone (plausible s1)\<rparr>
         in pushToDataLayer ''video_progress''
              [(''video_title'', opt_str (videoTitle props)),
               (''video_url'', Str (videoPath_ev props)),
               (''video_percent'', Number (Num (real milestone)))] s2)
      else s)"

definition handleTimeUpdate :: "VideoPlayerProps \<Rightarrow> VideoPlayerState \<Rightarrow> VideoPlayerState" where
  "handleTimeUpdate p s =
     (case videoRef s of
        None \<Rightarrow> s
      | Some video \<Rightarrow>
          (let currentProgress = js_mul (js_div (v_currentTime video) (v_duration video)) (Num 100)
           in foldl (milestone_step p currentProgress) (s\<lparr>progress := currentProgress\<rparr>)
                milestones))"

definition handleVideoEnded :: "VideoPlayerProps \<Rightarrow> VideoPlayerState \<Rightarrow> VideoPlayerState" where
  "handleVideoEnded p s =
     (let s0 = s\<lparr>isPaused := True\<rparr> in
      if 100 \<notin> trackedMilestonesRef s0 then
        (let s1 = s0\<lparr>trackedMilestonesRef := insert 100 (trackedMilestonesRef s0)\<rparr>;
             props = getVideoEventProps p s1;
             s2 = s1\<lparr>plausible := trackVideoComplete props (plausible s1)\<rparr>
         in pushToDataLayer ''video_complete''
              [(''video_title'', opt_str (videoTitle props)),
               (''video_url'', Str (videoPath_ev props)),
               (''video_duration'', opt_num (duration props))] s2)
      else s0)"

text \<open>
  One playback session is a sequence of events delivered to one mounted component.
  The poster button exists only while \<open>isPlaying\<close> is false; the video element and its
  controls exist only while it is true, and the element is attached to \<^verbatim>\<open>videoRef\<close> by
  the render that follows \<^verbatim>\<open>setIsPlaying(true)\<close>. \<open>Browser v\<close> is the browser changing
  what the element reports (time, duration, paused, muted) between two handler calls.
  The call log and the data layer of the state record what this instance sent.
\<close>

datatype event =
    PlayClick
  | PlayTimer
  | PlayPauseClick
  | MuteClick
  | FullscreenClick promise_result
  | FullscreenChange bool
  | TimeUpdate
  | Ended
  | Browser HTMLVideoElement

definition mounted_video :: HTMLVideoElement where
  "mounted_video = \<lparr>v_currentTime = Num 0, v_duration = NaN, v_paused = True, v_muted = False\<rparr>"

definition commit :: "VideoPlayerState \<Rightarrow> VideoPlayerState" where
  "commit s = (if isPlaying s \<and> videoRef s = None then s\<lparr>videoRef := Some mounted_video\<rparr> else s)"

definition init :: "bool \<Rightarrow> VideoPlayerState" where
  "init has_dataLayer =
     \<lparr>isPlaying = False, isPaused = False, isMuted = False, isFullscreen = False,
      progress = Num 0, showControls = True, videoRef = None, containerRef = True,
      trackedMilestonesRef = {}, hasTrackedPlayRef = False, plausible = [],
      dataLayer = (if has_dataLayer then Some [] else None), console = [],
      fullscreenElement = False, pendingPlay = 0\<rparr>"

fun step :: "VideoPlayerProps \<Rightarrow> event \<Rightarrow> VideoPlayerState \<Rightarrow> VideoPlayerState" where
  "step p PlayClick s = (if isPlaying s then s else commit (handlePlayClick s))"
| "step p PlayTimer s =
     (if pendingPlay s = 0 then s else playTimeout p (s\<lparr>pendingPlay := pendingPlay s - 1\<rparr>))"
| "step p PlayPauseClick s = (if isPlaying s then togglePlayPause p s else s)"
| "step p MuteClick s = (if isPlaying s then toggleMute s else s)"
| "step p (FullscreenClick res) s =
     (if isPlaying s then (case toggleFullscreen res s of Inr s' \<Rightarrow> s' | Inl err \<Rightarrow> s) else s)"
| "step p (FullscreenChange b) s = handleFullscreenChange (s\<lparr>fullscreenElement := b\<rparr>)"
| "step p TimeUpdate s = (if isPlaying s then handleTimeUpdate p s else s)"
| "step p Ended s = (if isPlaying s then handleVideoEnded p s else s)"
| "step p (Browser v) s = s\<lparr>videoRef := map_option (\<lambda>old. v) (videoRef s)\<rparr>"

definition run :: "VideoPlayerProps \<Rightarrow> VideoPlayerState \<Rightarrow> event list \<Rightarrow> VideoPlayerState" where
  "run p s evs = foldl (\<lambda>s' e. step p e s') s evs"


text \<open>Observers of what was sent: the calls and pushes of one kind.\<close>

definition call_prop :: "string \<Rightarrow> plausible_call \<Rightarrow> jsval option" where
  "call_prop k c =
     (case snd c of
        None \<Rightarrow> None
      | Some opts \<Rightarrow> (case map_of opts ''props'' of Some (Obj ps) \<Rightarrow> map_of ps k | _ \<Rightarrow> None))"

definition calls_named :: "string \<Rightarrow> plausible_call list \<Rightarrow> nat" where
  "calls_named name calls = length (filter (\<lambda>c. fst c = name) calls)"

definition progress_calls :: "nat \<Rightarrow> plausible_call list \<Rightarrow> nat" where
  "progress_calls m calls =
     length (filter (\<lambda>c. fst c = ''Video Progress''
                        \<and> call_prop ''milestone'' c = Some (Number (Num (real m)))) calls)"

definition pushes_named :: "string \<Rightarrow> jsobject list option \<Rightarrow> nat" where
  "pushes_named name dl =
     (case dl of
        None \<Rightarrow> 0
      | Some obs \<Rightarrow> length (filter (\<lambda>ob. map_of ob ''event'' = Some (Str name)) obs))"

definition progress_pushes :: "nat \<Rightarrow> jsobject list option \<Rightarrow> nat" where
  "progress_pushes m dl =
     (case dl of
        None \<Rightarrow> 0
      | Some obs \<Rightarrow>
          length (filter (\<lambda>ob. map_of ob ''event'' = Some (Str ''video_progress'')
                             \<and> map_of ob ''video_percent'' = Some (Number (Num (real m)))) obs))"

subsection \<open>What the component renders\<close>

text \<open>
  Rendered output is a tree of elements with their attributes. Icons and class names
  that depend on nothing are left out; JSX conditionals follow JavaScript truthiness,
  under which the empty string counts as absent.
\<close>

datatype node = Element string "(string \<times> string) list" "node list" | Text string











section \<open>VideoShowcase: VideoCard\<close>





section \<open>Page actions: ViewOptions\<close>

text \<open>
  \<^verbatim>\<open>new URLSearchParams(record)\<close> in a template literal yields the
  \<^verbatim>\<open>application/x-www-form-urlencoded\<close> serialisation of the record's entries: a
  space becomes \<open>+\<close>, letters, digits and \<open>* - . _\<close> stay, every other byte becomes
  \<open>%\<close> with two upper-case hexadecimal digits. Strings are the byte sequences of their
  UTF-8 encoding. The \<^verbatim>\<open>URL\<close> constructor of the browser is a parameter: it
  returns the serialised absolute URL, or nothing where it throws a TypeError. Without a
  window (rendering on the server) the source uses the text \<^verbatim>\<open>loading\<close> instead.
\<close>

definition form_unreserved :: "char \<Rightarrow> bool" where
  "form_unreserved c =
     (let n = (of_char c :: nat) in
      (48 \<le> n \<and> n \<le> 57) \<or> (65 \<le> n \<and> n \<le> 90) \<or> (97 \<le> n \<and> n \<le> 122)
      \<or> n = 42 \<or> n = 45 \<or> n = 46 \<or> n = 95)"

definition hex_digit :: "nat \<Rightarrow> char" where
  "hex_digit d = ''0123456789ABCDEF'' ! d"

definition form_encode_byte :: "char \<Rightarrow> string" where
  "form_encode_byte c =
     (if form_unreserved c then [c]
      else if c = CHR '' '' then ''+''
      else [CHR ''%'', hex_digit (of_char c div 16), hex_digit (of_char c mod 16)])"

definition form_encode :: "string \<Rightarrow> string" where
  "form_encode s = concat (map form_encode_byte s)"

fun join_with :: "string \<Rightarrow> string list \<Rightarrow> string" where
  "join_with sep [] = []"
| "join_with sep [x] = x"
| "join_with sep (x # y # ys) = x @ sep @ join_with sep (y # ys)"

definition pair_text :: "string \<times> string \<Rightarrow> string" where
  "pair_text e = form_encode (fst e) @ ''='' @ form_encode (snd e)"

definition URLSearchParams_toString :: "(string \<times> string) list \<Rightarrow> string" where
  "URLSearchParams_toString entries = join_with ''&'' (map pair_text entries)"

datatype js_error = TypeError

record option_item =
  title_opt :: string
  href_opt :: string

definition ask_prompt :: "string \<Rightarrow> string" where
  "ask_prompt fullMarkdownUrl = ''Read '' @ fullMarkdownUrl @ '', I want to ask questions about it.''"

definition ViewOptions_items ::
  "(string \<Rightarrow> string \<Rightarrow> string option) \<Rightarrow> string option \<Rightarrow> string \<Rightarrow> string
     \<Rightarrow> js_error + option_item list" where
  "ViewOptions_items new_URL window_origin markdownUrl githubUrl =
     (case (case window_origin of
              Some origin \<Rightarrow>
                (case new_URL markdownUrl origin of
                   Some u \<Rightarrow> Inr u
                 | None \<Rightarrow> Inl TypeError)
            | None \<Rightarrow> Inr ''loading'') of
        Inl e \<Rightarrow> Inl e
      | Inr fullMarkdownUrl \<Rightarrow>
          (let q = ask_prompt fullMarkdownUrl in
           Inr [\<lparr>title_opt = ''Open in GitHub'', href_opt = githubUrl\<rparr>,
                \<lparr>title_opt = ''Open in ChatGPT'',
                 href_opt = ''https://chatgpt.com/?''
                    @ URLSearchParams_toString [(''hints'', ''search''), (''q'', q)]\<rparr>,
                \<lparr>title_opt = ''Open in Claude'',
                 href_opt = ''https://claude.ai/new?'' @ URLSearchParams_toString [(''q'', q)]\<rparr>,
                \<lparr>title_opt = ''Open in T3 Chat'',
                 href_opt = ''https://t3.chat/new?'' @ URLSearchParams_toString [(''q'', q)]\<rparr>,
                \<lparr>title_opt = ''Open in Scira AI'',
                 href_opt = ''https://scira.ai/?'' @ URLSearchParams_toString [(''q'', q)]\<rparr>]))"

text \<open>
  The reader's side of a link: the query of a URL is what follows its first \<open>?\<close>, up to
  a fragment; its parameters are read by splitting at \<open>&\<close>, splitting each part at its
  first \<open>=\<close>, and decoding \<open>+\<close> and percent escapes.
\<close>

definition hex_val :: "char \<Rightarrow> nat option" where
  "hex_val c =
     (let n = (of_char c :: nat) in
      if 48 \<le> n \<and> n \<le> 57 then Some (n - 48)
      else if 65 \<le> n \<and> n \<le> 70 then Some (n - 55)
      else if 97 \<le> n \<and> n \<le> 102 then Some (n - 87)
      else None)"

fun form_decode :: "string \<Rightarrow> string" where
  "form_decode [] = []"
| "form_decode [c] = (if c = CHR ''+'' then '' '' else [c])"
| "form_decode [c, d] =
     (if c = CHR ''+'' then CHR '' '' # form_decode [d] else c # form_decode [d])"
| "form_decode (c # h1 # h2 # cs) =
     (if c = CHR ''+'' then CHR '' '' # form_decode (h1 # h2 # cs)
      else if c = CHR ''%'' then
        (case (hex_val h1, hex_val h2) of
           (Some a, Some b) \<Rightarrow> char_of (a * 16 + b) # form_decode cs
         | _ \<Rightarrow> c # form_decode (h1 # h2 # cs))
      else c # form_decode (h1 # h2 # cs))"

fun split_on :: "char \<Rightarrow> string \<Rightarrow> string list" where
  "split_on sep [] = [[]]"
| "split_on sep (c # cs) =
     (if c = sep then [] # split_on sep cs
      else (case split_on sep cs of
              [] \<Rightarrow> [[c]]
            | x # xs \<Rightarrow> (c # x) # xs))"

definition parse_pair :: "string \<Rightarrow> string \<times> string" where
  "parse_pair seg =
     (form_decode (takeWhile (\<lambda>c. c \<noteq> CHR ''='') seg),
      form_decode (drop 1 (dropWhile (\<lambda>c. c \<noteq> CHR ''='') seg)))"

definition parse_query :: "string \<Rightarrow> (string \<times> string) list" where
  "parse_query q = map parse_pair (filter (\<lambda>seg. seg \<noteq> []) (split_on CHR ''&'' q))"

definition url_query :: "string \<Rightarrow> string" where
  "url_query href =
     takeWhile (\<lambda>c. c \<noteq> CHR ''#'') (drop 1 (dropWhile (\<lambda>c. c \<noteq> CHR ''?'') href))"

definition query_param :: "string \<Rightarrow> string \<Rightarrow> string option" where
  "query_param k href = map_of (parse_query (url_query href)) k"

section \<open>The docs route\<close>

text \<open>
  \<^verbatim>\<open>source.getPage\<close> belongs to the documentation framework's loader and is a
  parameter. \<^verbatim>\<open>notFound()\<close> of the framework never returns: it raises the error that
  the framework answers with its 404 page. The table of contents and the layout flag
  of a page are handed to the framework's page component as they are and are left out.
\<close>

record page_data =
  title_page :: string
  description_page :: "string option"
  body :: node

datatype next_error = NotFound

record metadata =
  title_meta :: string
  description_meta :: "string option"

definition Page :: "(string list option \<Rightarrow> page_data option) \<Rightarrow> string list option \<Rightarrow> next_error + node" where
  "Page getPage slug =
     (case getPage slug of
        None \<Rightarrow> Inl NotFound
      | Some page \<Rightarrow>
          Inr (Element ''DocsPage'' [(''tableOfContent.style'', ''clerk'')]
                 [Element ''DocsTitle'' [] [Text (title_page page)],
                  Element ''DocsDescription'' [(''className'', ''mb-2'')]
                    (case description_page page of None \<Rightarrow> [] | Some d \<Rightarrow> [Text d]),
                  Element ''DocsBody'' [] [body page]]))"

definition generateMetadata ::
  "(string list option \<Rightarrow> page_data option) \<Rightarrow> string list option \<Rightarrow> next_error + metadata" where
  "generateMetadata getPage slug =
     (case getPage slug of
        None \<Rightarrow> Inl NotFound
      | Some page \<Rightarrow>
          Inr \<lparr>title_meta = title_page page, description_meta = description_page page\<rparr>)"

section \<open>Example inputs\<close>

definition example_props :: VideoPlayerProps where
  "example_props =
     \<lparr>videoPath = ''intro.mp4'', title = Some ''Intro'', thumbnailPath = None,
      gifPath = None, className = []\<rparr>"

definition example_video :: "real \<Rightarrow> HTMLVideoElement" where
  "example_video t =
     \<lparr>v_currentTime = Num t, v_duration = Num 120, v_paused = False, v_muted = False\<rparr>"

definition example_session :: "event list" where
  "example_session =
     [PlayClick, PlayTimer, Browser (example_video 30), TimeUpdate,
      Browser (example_video 10), TimeUpdate, Browser (example_video 61), TimeUpdate,
      Ended, Ended, PlayPauseClick, PlayPauseClick]"

text \<open>
  A stand-in for the URL constructor of the browser, for paths that start with a
  slash: it puts the path after the origin.
\<close>

definition example_new_URL :: "string \<Rightarrow> string \<Rightarrow> string option" where
  "example_new_URL rel base = Some (base @ rel)"

section \<open>Invariants of a playback session\<close>

text \<open>
  What has been sent agrees with the guards the component keeps: the play event has
  been sent once if the play guard is set and not at all otherwise, and likewise the
  completion event and each milestone event with the set of tracked milestones. An
  absent data layer receives nothing.
\<close>

definition play_inv :: "VideoPlayerState \<Rightarrow> bool" where
  "play_inv s =
     (calls_named ''Video Play'' (plausible s) = (if hasTrackedPlayRef s then 1 else 0)
      \<and> pushes_named ''video_start'' (dataLayer s)
          = (if hasTrackedPlayRef s \<and> dataLayer s \<noteq> None then 1 else 0))"


definition progress_inv :: "VideoPlayerState \<Rightarrow> bool" where
  "progress_inv s =
     (\<forall>m. progress_calls m (plausible s)
            = (if m \<in> trackedMilestonesRef s \<and> m \<in> set milestones then 1 else 0)
          \<and> progress_pushes m (dataLayer s)
            = (if m \<in> trackedMilestonesRef s \<and> m \<in> set milestones \<and> dataLayer s \<noteq> None
               then 1 else 0))"

definition fs_sync :: "VideoPlayerState \<Rightarrow> bool" where
  "fs_sync s = (isFullscreen s = fullscreenElement s)"

section \<open>Properties of extractYouTubeId\<close>

lemma greedy_top: "k n = Some r \<Longrightarrow> greedy n k = Some r"
  by (cases n) simp_all

lemma greedy_none: "(\<And>i. i \<le> n \<Longrightarrow> k i = None) \<Longrightarrow> greedy n k = None"
  by (induction n) simp_all


lemma id_run:
  assumes "\<forall>c\<in>set vid. id_char c" and "suf = [] \<or> \<not> id_char (hd suf)"
  shows "takeWhile id_char (vid @ suf) = vid"
proof -
  have "takeWhile id_char suf = []"
    using assms(2) by (cases suf) auto
  with assms(1) show ?thesis by (simp add: takeWhile_append2)
qed

lemma capture_id:
  assumes "vid \<noteq> []" and "\<forall>c\<in>set vid. id_char c" and "suf = [] \<or> \<not> id_char (hd suf)"
  shows "rmatch (Capture (OneOrMore id_char)) (vid @ suf) caps (\<lambda>s' caps'. Some (f s' caps'))
           = Some (f suf (caps @ [vid]))"
proof -
  have run: "takeWhile id_char (vid @ suf) = vid"
    using assms(2,3) by (rule id_run)
  have "length vid \<noteq> 0" using assms(1) by simp
  then show ?thesis
    by (simp add: run greedy_top)
qed

lemma alts_marker:
  assumes "m \<in> set markers" and "k t caps = Some r"
  shows "rmatch alts (m @ t) caps k = Some r"
proof -
  from assms(1) consider "m = ''youtube.com/watch?v=''" | "m = ''youtu.be/''"
    | "m = ''youtube.com/embed/''"
    by (auto simp: markers_def)
  then show ?thesis
    using assms(2) by cases (simp_all add: alts_def)
qed

lemma match_at_marker:
  assumes "m \<in> set markers" and "vid \<noteq> []" and "\<forall>c\<in>set vid. id_char c"
    and "suf = [] \<or> \<not> id_char (hd suf)"
  shows "match_at pattern1 (m @ vid @ suf) = Some [m @ vid, vid]"
proof -
  let ?s = "m @ vid @ suf"
  let ?K = "\<lambda>s' caps. Some (take (length ?s - length s') ?s # caps)"
  have "rmatch (Capture (OneOrMore id_char)) (vid @ suf) [] ?K
          = Some (take (length ?s - length suf) ?s # [] @ [vid])"
    by (rule capture_id [OF assms(2,3,4)])
  then have "rmatch (Capture (OneOrMore id_char)) (vid @ suf) [] ?K = Some [m @ vid, vid]"
    by simp
  then have "rmatch alts (m @ (vid @ suf)) []
      (\<lambda>s' caps'. rmatch (Capture (OneOrMore id_char)) s' caps' ?K) = Some [m @ vid, vid]"
    by (intro alts_marker [OF assms(1)])
  then show ?thesis
    by (simp add: match_at_def pattern1_def del: rmatch.simps(5) rmatch.simps(6))
qed

lemma match_at_no_marker:
  assumes "\<forall>m\<in>set markers. \<not> prefix m s"
  shows "match_at pattern1 s = None"
  using assms by (simp add: match_at_def pattern1_def alts_def markers_def)

lemma js_match_skip:
  "(\<forall>i<length pre. match_at r (drop i (pre @ s)) = None) \<Longrightarrow> js_match r (pre @ s) = js_match r s"
proof (induction pre)
  case Nil
  then show ?case by simp
next
  case (Cons c pre)
  have h0: "match_at r (c # pre @ s) = None"
    using Cons.prems by (auto dest: spec[of _ 0])
  have "\<forall>i<length pre. match_at r (drop i (pre @ s)) = None"
  proof (intro allI impI)
    fix i assume "i < length pre"
    then have "Suc i < length (c # pre)" by simp
    with Cons.prems have "match_at r (drop (Suc i) ((c # pre) @ s)) = None" by blast
    then show "match_at r (drop i (pre @ s)) = None" by simp
  qed
  with Cons.IH h0 show ?case by simp
qed

lemma js_match_here: "match_at r s = Some m \<Longrightarrow> js_match r s = Some m"
  by (cases s) simp_all

lemma js_match_none: "js_match r s = None \<Longrightarrow> match_at r s = None"
  by (cases s) (simp_all split: option.splits)









lemma extract_none_iff:
  "extractYouTubeId u = None \<longleftrightarrow> js_match pattern1 u = None \<and> js_match pattern2 u = None"
  by (auto simp: extractYouTubeId_def patterns_def split: option.splits)

lemma extract_pattern1:
  "js_match pattern1 u = Some m \<Longrightarrow> extractYouTubeId u = Some (m ! 1)"
  by (simp add: extractYouTubeId_def patterns_def)


lemma no_marker_beforeD:
  "no_marker_before url n \<Longrightarrow> i < n \<Longrightarrow> \<forall>m\<in>set markers. \<not> prefix m (drop i url)"
  by (simp add: no_marker_before_def list_all_iff)


lemma excluded_id_char:
  "c \<notin> {CHR ''&'', CHR ''?'', CHR ''#'', CHR 0x0A} \<longleftrightarrow> id_char c"
  by (simp add: id_char_def) blast

lemma extract_marker:
  assumes m: "m \<in> set markers" and vid: "vid \<noteq> []"
    and cls: "\<forall>c\<in>set vid. id_char c"
    and suf: "suf = [] \<or> \<not> id_char (hd suf)"
    and first: "no_marker_before (pre @ m @ vid @ suf) (length pre)"
  shows "extractYouTubeId (pre @ m @ vid @ suf) = Some vid"
proof -
  have here: "match_at pattern1 (m @ vid @ suf) = Some [m @ vid, vid]"
    using m vid cls suf by (rule match_at_marker)
  have "\<forall>i<length pre. match_at pattern1 (drop i (pre @ m @ vid @ suf)) = None"
  proof (intro allI impI)
    fix i assume "i < length pre"
    with first have "\<forall>m'\<in>set markers. \<not> prefix m' (drop i (pre @ m @ vid @ suf))"
      by (rule no_marker_beforeD)
    then show "match_at pattern1 (drop i (pre @ m @ vid @ suf)) = None"
      by (rule match_at_no_marker)
  qed
  then have "js_match pattern1 (pre @ m @ vid @ suf) = js_match pattern1 (m @ vid @ suf)"
    by (rule js_match_skip)
  also have "\<dots> = Some [m @ vid, vid]"
    using here by (rule js_match_here)
  finally have "js_match pattern1 (pre @ m @ vid @ suf) = Some [m @ vid, vid]" .
  then have "extractYouTubeId (pre @ m @ vid @ suf) = Some ([m @ vid, vid] ! 1)"
    by (rule extract_pattern1)
  then show ?thesis by simp
qed


text \<open>
  C1. A URL that consists of some prefix, one of the three markers
  \<^verbatim>\<open>youtube.com/watch?v=\<close>, \<^verbatim>\<open>youtu.be/\<close>, \<^verbatim>\<open>youtube.com/embed/\<close>, and a video
  id, where the id is a non-empty run of characters other than \<open>&\<close>, \<open>?\<close>, \<open>#\<close> and
  newline that ends at the end of the URL or at one of these four characters, and where
  the marker is the first marker of the URL, yields that id. A string that neither
  pattern matches yields null. The two examples of the specification evaluate as stated.
\<close>

theorem extractYouTubeId_formats:
  "(m \<in> set markers \<and> vid \<noteq> []
      \<and> (\<forall>c\<in>set vid. c \<notin> {CHR ''&'', CHR ''?'', CHR ''#'', CHR 0x0A})
      \<and> (suf = [] \<or> hd suf \<in> {CHR ''&'', CHR ''?'', CHR ''#'', CHR 0x0A})
      \<and> no_marker_before (pre @ m @ vid @ suf) (length pre)
     \<longrightarrow> extractYouTubeId (pre @ m @ vid @ suf) = Some vid)
   \<and> (js_match pattern1 u = None \<and> js_match pattern2 u = None
     \<longrightarrow> extractYouTubeId u = None)
   \<and> extractYouTubeId ''https://youtu.be/abc123XYZ'' = Some ''abc123XYZ''
   \<and> extractYouTubeId ''not-a-url'' = None"
proof (intro conjI impI)
  assume a: "m \<in> set markers \<and> vid \<noteq> []
      \<and> (\<forall>c\<in>set vid. c \<notin> {CHR ''&'', CHR ''?'', CHR ''#'', CHR 0x0A})
      \<and> (suf = [] \<or> hd suf \<in> {CHR ''&'', CHR ''?'', CHR ''#'', CHR 0x0A})
      \<and> no_marker_before (pre @ m @ vid @ suf) (length pre)"
  then have m: "m \<in> set markers" and vid: "vid \<noteq> []"
    and first: "no_marker_before (pre @ m @ vid @ suf) (length pre)"
    by simp_all
  from a have "\<forall>c\<in>set vid. c \<notin> {CHR ''&'', CHR ''?'', CHR ''#'', CHR 0x0A}"
    by blast
  then have cls: "\<forall>c\<in>set vid. id_char c"
    by (simp only: excluded_id_char)
  from a have suf: "suf = [] \<or> \<not> id_char (hd suf)"
    using excluded_id_char [of "hd suf"] by blast
  show "extractYouTubeId (pre @ m @ vid @ suf) = Some vid"
    using m vid cls suf first by (rule extract_marker)
next
  assume "js_match pattern1 u = None \<and> js_match pattern2 u = None"
  then show "extractYouTubeId u = None"
    by (simp add: extract_none_iff)
next
  show "extractYouTubeId ''https://youtu.be/abc123XYZ'' = Some ''abc123XYZ''"
    by code_simp
next
  show "extractYouTubeId ''not-a-url'' = None"
    by code_simp
qed

theorem extractYouTubeId_formats_witness:
  "extractYouTubeId ''https://www.youtube.com/watch?v=dQw4w9WgXcQ&t=42'' = Some ''dQw4w9WgXcQ''
   \<and> extractYouTubeId ''plain text'' = None"
proof -
  have h: "''youtube.com/watch?v='' \<in> set markers \<and> ''dQw4w9WgXcQ'' \<noteq> []
      \<and> (\<forall>c\<in>set ''dQw4w9WgXcQ''. c \<notin> {CHR ''&'', CHR ''?'', CHR ''#'', CHR 0x0A})
      \<and> (''&t=42'' = [] \<or> hd ''&t=42'' \<in> {CHR ''&'', CHR ''?'', CHR ''#'', CHR 0x0A})
      \<and> no_marker_before (''https://www.'' @ ''youtube.com/watch?v='' @ ''dQw4w9WgXcQ'' @ ''&t=42'')
            (length ''https://www.'')"
    by code_simp
  have n: "js_match pattern1 ''plain text'' = None \<and> js_match pattern2 ''plain text'' = None"
    by code_simp
  from extractYouTubeId_formats [of "''youtube.com/watch?v=''" "''dQw4w9WgXcQ''" "''&t=42''"
      "''https://www.''" "''plain text''"] h n
  show ?thesis by simp
qed

section \<open>Properties of trackEvent\<close>

text \<open>
  C9. A call of trackEvent makes exactly one call of the SDK function, with the event
  name and with options that hold exactly the arguments given: undefined when neither
  props nor revenue is given, otherwise an object whose keys are the given ones.
\<close>

theorem trackEvent_options:
  "trackEvent eventName props revenue calls =
     calls @ [(eventName,
       (case (props, revenue) of
          (None, None) \<Rightarrow> None
        | (Some p, None) \<Rightarrow> Some [(''props'', Obj p)]
        | (None, Some r) \<Rightarrow> Some [(''revenue'', revenue_obj r)]
        | (Some p, Some r) \<Rightarrow> Some [(''props'', Obj p), (''revenue'', revenue_obj r)]))]"
  by (simp add: trackEvent_def Object_keys_def split: option.splits)

theorem trackEvent_options_witness:
  "trackEvent ''Signup'' None None [] = [(''Signup'', None)]
   \<and> trackEvent ''Purchase'' None (Some \<lparr>amount = Num 5, currency = ''USD''\<rparr>) []
       = [(''Purchase'', Some [(''revenue'', Obj [(''amount'', Number (Num 5)), (''currency'', Str ''USD'')])])]"
  using trackEvent_options [of "''Signup''" None None "[]"]
    trackEvent_options [of "''Purchase''" None "Some \<lparr>amount = Num 5, currency = ''USD''\<rparr>" "[]"]
  by (simp add: revenue_obj_def)

section \<open>Properties of the docs route\<close>

text \<open>
  C6. When the page source has no page for a slug, both Page and generateMetadata end in
  notFound. When it has one, neither does: Page renders the title, the description and
  the body of that page, and generateMetadata returns its title and description.
\<close>

theorem Page_notFound:
  "(getPage slug = None \<longrightarrow>
      Page getPage slug = Inl NotFound \<and> generateMetadata getPage slug = Inl NotFound)
   \<and> (getPage slug = Some page \<longrightarrow>
      Page getPage slug =
        Inr (Element ''DocsPage'' [(''tableOfContent.style'', ''clerk'')]
               [Element ''DocsTitle'' [] [Text (title_page page)],
                Element ''DocsDescription'' [(''className'', ''mb-2'')]
                  (case description_page page of None \<Rightarrow> [] | Some d \<Rightarrow> [Text d]),
                Element ''DocsBody'' [] [body page]])
      \<and> generateMetadata getPage slug =
        Inr \<lparr>title_meta = title_page page, description_meta = description_page page\<rparr>)"
  by (simp add: Page_def generateMetadata_def)

theorem Page_notFound_witness:
  "Page (\<lambda>slug. if slug = Some [''concepts'', ''steps''] then
            Some \<lparr>title_page = ''Steps'', description_page = Some ''The core primitive'',
                  body = Text ''A Step is a file.''\<rparr>
          else None) (Some [''missing'']) = Inl NotFound
   \<and> Page (\<lambda>slug. if slug = Some [''concepts'', ''steps''] then
            Some \<lparr>title_page = ''Steps'', description_page = Some ''The core primitive'',
                  body = Text ''A Step is a file.''\<rparr>
          else None) (Some [''concepts'', ''steps'']) =
        Inr (Element ''DocsPage'' [(''tableOfContent.style'', ''clerk'')]
               [Element ''DocsTitle'' [] [Text ''Steps''],
                Element ''DocsDescription'' [(''className'', ''mb-2'')] [Text ''The core primitive''],
                Element ''DocsBody'' [] [Text ''A Step is a file.'']])"
proof -
  let ?src = "\<lambda>slug. if slug = Some [''concepts'', ''steps''] then
            Some \<lparr>title_page = ''Steps'', description_page = Some ''The core primitive'',
                  body = Text ''A Step is a file.''\<rparr>
          else None"
  let ?page = "\<lparr>title_page = ''Steps'', description_page = Some ''The core primitive'',
                  body = Text ''A Step is a file.''\<rparr>"
  have none: "?src (Some [''missing'']) = None"
    by simp
  have some: "?src (Some [''concepts'', ''steps'']) = Some ?page"
    by simp
  from Page_notFound [of ?src "Some [''missing'']"] none
  have a: "Page ?src (Some [''missing'']) = Inl NotFound"
    by blast
  from Page_notFound [of ?src "Some [''concepts'', ''steps'']" ?page] some
  have b: "Page ?src (Some [''concepts'', ''steps'']) =
        Inr (Element ''DocsPage'' [(''tableOfContent.style'', ''clerk'')]
               [Element ''DocsTitle'' [] [Text (title_page ?page)],
                Element ''DocsDescription'' [(''className'', ''mb-2'')]
                  (case description_page ?page of None \<Rightarrow> [] | Some d \<Rightarrow> [Text d]),
                Element ''DocsBody'' [] [body ?page]])"
    by blast
  from a b show ?thesis by simp
qed

section \<open>Properties of toggleFullscreen\<close>

lemma fs_push:
  "isFullscreen (pushToDataLayer n d s) = isFullscreen s"
  "fullscreenElement (pushToDataLayer n d s) = fullscreenElement s"
  by (simp_all add: pushToDataLayer_def split: option.splits)

lemma fs_sync_track_first_play: "fs_sync (track_first_play p s) = fs_sync s"
  by (simp add: fs_sync_def track_first_play_def Let_def fs_push)

lemma fs_sync_togglePlayPause: "fs_sync (togglePlayPause p s) = fs_sync s"
  by (simp add: togglePlayPause_def Let_def fs_sync_track_first_play split: option.splits)
    (simp add: fs_sync_def fs_push video_play_def video_pause_def)

lemma fs_sync_milestone_step: "fs_sync (milestone_step p cp s m) = fs_sync s"
  by (simp add: fs_sync_def milestone_step_def Let_def fs_push)

lemma fs_sync_foldl: "fs_sync (foldl (milestone_step p cp) s ms) = fs_sync s"
  by (induction ms arbitrary: s) (simp_all add: fs_sync_milestone_step)

lemma fs_sync_handleTimeUpdate: "fs_sync (handleTimeUpdate p s) = fs_sync s"
  by (simp add: handleTimeUpdate_def Let_def fs_sync_foldl split: option.splits)
    (simp add: fs_sync_def)

lemma fs_sync_handleVideoEnded: "fs_sync (handleVideoEnded p s) = fs_sync s"
  by (simp add: fs_sync_def handleVideoEnded_def Let_def fs_push)

lemma fs_sync_toggleFullscreen:
  "fs_sync s \<Longrightarrow> toggleFullscreen res s = Inr s' \<Longrightarrow> fs_sync s'"
  by (auto simp: toggleFullscreen_def fullscreen_try_def fs_sync_def
      split: if_splits promise_result.splits)

lemma fs_sync_step: "fs_sync s \<Longrightarrow> fs_sync (step p e s)"
proof (cases e)
  case PlayClick
  assume "fs_sync s"
  then show ?thesis
    using PlayClick by (simp add: fs_sync_def commit_def handlePlayClick_def)
next
  case PlayTimer
  assume "fs_sync s"
  then show ?thesis
    using PlayTimer
    by (simp add: playTimeout_def fs_sync_track_first_play) (simp add: fs_sync_def video_play_def)
next
  case PlayPauseClick
  assume "fs_sync s"
  then show ?thesis
    using PlayPauseClick by (simp add: fs_sync_togglePlayPause)
next
  case MuteClick
  assume "fs_sync s"
  then show ?thesis
    using MuteClick by (simp add: fs_sync_def toggleMute_def split: option.splits)
next
  case (FullscreenClick res)
  assume "fs_sync s"
  then show ?thesis
    using FullscreenClick by (auto split: sum.splits dest: fs_sync_toggleFullscreen)
next
  case (FullscreenChange b)
  then show ?thesis
    by (simp add: fs_sync_def handleFullscreenChange_def)
next
  case TimeUpdate
  assume "fs_sync s"
  then show ?thesis
    using TimeUpdate by (simp add: fs_sync_handleTimeUpdate)
next
  case Ended
  assume "fs_sync s"
  then show ?thesis
    using Ended by (simp add: fs_sync_handleVideoEnded)
next
  case (Browser v)
  assume "fs_sync s"
  then show ?thesis
    using Browser by (simp add: fs_sync_def)
qed

lemma fs_sync_run: "fs_sync s \<Longrightarrow> fs_sync (run p s evs)"
  by (induction evs arbitrary: s) (simp_all add: run_def fs_sync_step)

lemma fs_sync_init: "fs_sync (init dl)"
  by (simp add: fs_sync_def init_def)

lemma toggleFullscreen_rejected_eq:
  "toggleFullscreen (Rejected err) s
     = Inr (if containerRef s then s\<lparr>console := console s @ [(''Fullscreen error:'', err)]\<rparr>
            else s)"
  by (simp add: toggleFullscreen_def fullscreen_try_def)

text \<open>
  C5. When the promise of the Fullscreen API rejects, the handler still returns
  normally, the error is written to the console, and nothing else of the state changes:
  isFullscreen keeps its value. In particular a component that is not fullscreen before
  a failed request is not fullscreen after it, and this is the case for every failed
  request to enter fullscreen in a session that starts from the initial state.
\<close>

theorem toggleFullscreen_rejected:
  "(\<exists>s'. toggleFullscreen (Rejected err) s = Inr s')
   \<and> (\<forall>s'. toggleFullscreen (Rejected err) s = Inr s' \<longrightarrow>
         isFullscreen s' = isFullscreen s
         \<and> (containerRef s \<longrightarrow> s' = s\<lparr>console := console s @ [(''Fullscreen error:'', err)]\<rparr>)
         \<and> (\<not> isFullscreen s \<longrightarrow> \<not> isFullscreen s'))
   \<and> (\<forall>s'. \<not> fullscreenElement (run p (init dl) evs)
          \<and> toggleFullscreen (Rejected err) (run p (init dl) evs) = Inr s'
        \<longrightarrow> \<not> isFullscreen s')"
proof (intro conjI allI impI)
  show "\<exists>s'. toggleFullscreen (Rejected err) s = Inr s'"
    by (simp add: toggleFullscreen_rejected_eq)
next
  fix s'
  assume "toggleFullscreen (Rejected err) s = Inr s'"
  then have s': "s' = (if containerRef s
      then s\<lparr>console := console s @ [(''Fullscreen error:'', err)]\<rparr> else s)"
    by (simp add: toggleFullscreen_rejected_eq)
  then show "isFullscreen s' = isFullscreen s" by simp
  {
    assume "containerRef s"
    with s' show "s' = s\<lparr>console := console s @ [(''Fullscreen error:'', err)]\<rparr>" by simp
  }
  {
    assume "\<not> isFullscreen s"
    with s' show "\<not> isFullscreen s'" by simp
  }
next
  fix s'
  let ?s = "run p (init dl) evs"
  assume a: "\<not> fullscreenElement ?s \<and> toggleFullscreen (Rejected err) ?s = Inr s'"
  have "fs_sync ?s"
    using fs_sync_init by (rule fs_sync_run)
  with a have "\<not> isFullscreen ?s" by (simp add: fs_sync_def)
  moreover from a have "isFullscreen s' = isFullscreen ?s"
    by (auto simp: toggleFullscreen_rejected_eq split: if_splits)
  ultimately show "\<not> isFullscreen s'" by simp
qed

theorem toggleFullscreen_rejected_witness:
  "toggleFullscreen (Rejected ''denied'') (init True)
     = Inr ((init True)\<lparr>console := [(''Fullscreen error:'', ''denied'')]\<rparr>)
   \<and> \<not> isFullscreen (init True)
   \<and> \<not> isFullscreen ((init True)\<lparr>console := [(''Fullscreen error:'', ''denied'')]\<rparr>)
   \<and> (\<exists>s'. toggleFullscreen (Rejected ''denied'')
          (run example_props (init True) [PlayClick, FullscreenClick Resolved, FullscreenChange False])
          = Inr s' \<and> \<not> isFullscreen s')"
proof -
  let ?evs = "[PlayClick, FullscreenClick Resolved, FullscreenChange False]"
  have c: "containerRef (init True)" and f: "\<not> isFullscreen (init True)"
    and l: "console (init True) = []"
    by (simp_all add: init_def)
  note inst = toggleFullscreen_rejected [of "''denied''" "init True" example_props True ?evs]
  from inst obtain s' where s': "toggleFullscreen (Rejected ''denied'') (init True) = Inr s'"
    by blast
  with inst c f
  have "s' = (init True)\<lparr>console := console (init True) @ [(''Fullscreen error:'', ''denied'')]\<rparr>"
    and "\<not> isFullscreen s'"
    by blast+
  with s' f l have first: "toggleFullscreen (Rejected ''denied'') (init True)
     = Inr ((init True)\<lparr>console := [(''Fullscreen error:'', ''denied'')]\<rparr>)
   \<and> \<not> isFullscreen (init True)
   \<and> \<not> isFullscreen ((init True)\<lparr>console := [(''Fullscreen error:'', ''denied'')]\<rparr>)"
    by simp
  have out: "\<not> fullscreenElement (run example_props (init True) ?evs)"
    by (simp add: run_def init_def commit_def handlePlayClick_def toggleFullscreen_def
        fullscreen_try_def handleFullscreenChange_def)
  note inst2 = toggleFullscreen_rejected [of "''denied''" "run example_props (init True) ?evs"
      example_props True ?evs]
  from inst2 obtain s2 where s2: "toggleFullscreen (Rejected ''denied'')
      (run example_props (init True) ?evs) = Inr s2"
    by blast
  with inst2 out have "\<not> isFullscreen s2" by blast
  with s2 first show ?thesis by blast
qed

section \<open>Properties of the poster\<close>




section \<open>Properties of VideoCard\<close>






section \<open>Analytics of one playback session\<close>

lemma dataLayer_push:
  "dataLayer (pushToDataLayer n d s)
     = map_option (\<lambda>dl. dl @ [obj_spread [(''event'', Str n)] d]) (dataLayer s)"
  by (simp add: pushToDataLayer_def split: option.splits)

lemma push_frame:
  "plausible (pushToDataLayer n d s) = plausible s"
  "trackedMilestonesRef (pushToDataLayer n d s) = trackedMilestonesRef s"
  "hasTrackedPlayRef (pushToDataLayer n d s) = hasTrackedPlayRef s"
  "isPlaying (pushToDataLayer n d s) = isPlaying s"
  "videoRef (pushToDataLayer n d s) = videoRef s"
  "pendingPlay (pushToDataLayer n d s) = pendingPlay s"
  by (simp_all add: pushToDataLayer_def split: option.splits)

lemma pushes_named_append:
  "pushes_named n (map_option (\<lambda>dl. dl @ [ob]) dl0)
     = pushes_named n dl0 + (if dl0 \<noteq> None \<and> map_of ob ''event'' = Some (Str n) then 1 else 0)"
  by (cases dl0) (simp_all add: pushes_named_def)

lemma progress_pushes_append:
  "progress_pushes m (map_option (\<lambda>dl. dl @ [ob]) dl0)
     = progress_pushes m dl0
       + (if dl0 \<noteq> None \<and> map_of ob ''event'' = Some (Str ''video_progress'')
             \<and> map_of ob ''video_percent'' = Some (Number (Num (real m))) then 1 else 0)"
  by (cases dl0) (simp_all add: progress_pushes_def)

lemma pushes_None [simp]: "pushes_named n None = 0" "progress_pushes m None = 0"
  by (simp_all add: pushes_named_def progress_pushes_def)

lemma calls_named_track:
  "calls_named n (trackEvent n' props revenue calls)
     = calls_named n calls + (if n = n' then 1 else 0)"
  by (simp add: trackEvent_def calls_named_def Let_def)

lemma progress_calls_track_progress:
  "progress_calls m (trackVideoProgress props m' calls)
     = progress_calls m calls + (if m = m' then 1 else 0)"
  by (simp add: trackVideoProgress_def trackEvent_def progress_calls_def call_prop_def
      Object_keys_def)

lemma progress_calls_track_other:
  "n \<noteq> ''Video Progress'' \<Longrightarrow>
     progress_calls m (trackEvent n props revenue calls) = progress_calls m calls"
  by (simp add: trackEvent_def progress_calls_def Let_def)


lemma track_first_play_effect:
  "hasTrackedPlayRef (track_first_play p s)"
  "calls_named ''Video Play'' (plausible (track_first_play p s))
     = calls_named ''Video Play'' (plausible s) + (if hasTrackedPlayRef s then 0 else 1)"
  "pushes_named ''video_start'' (dataLayer (track_first_play p s))
     = pushes_named ''video_start'' (dataLayer s)
       + (if hasTrackedPlayRef s \<or> dataLayer s = None then 0 else 1)"
  "(dataLayer (track_first_play p s) = None) = (dataLayer s = None)"
  by (simp_all add: track_first_play_def Let_def trackVideoPlay_def calls_named_track
      dataLayer_push push_frame pushes_named_append obj_spread_def)


lemma play_inv_frame:
  assumes "play_inv s"
    and "hasTrackedPlayRef s' = hasTrackedPlayRef s"
    and "calls_named ''Video Play'' (plausible s') = calls_named ''Video Play'' (plausible s)"
    and "pushes_named ''video_start'' (dataLayer s') = pushes_named ''video_start'' (dataLayer s)"
    and "(dataLayer s' = None) = (dataLayer s = None)"
  shows "play_inv s'"
  using assms by (simp add: play_inv_def)

lemma play_inv_video_play: "play_inv (video_play s) = play_inv s"
  by (simp add: play_inv_def video_play_def)
























lemma milestone_step_effect:
  "trackedMilestonesRef (milestone_step p cp s m')
     = (if js_ge cp (Num (real m')) then insert m' (trackedMilestonesRef s)
        else trackedMilestonesRef s)"
  "progress_calls m (plausible (milestone_step p cp s m'))
     = progress_calls m (plausible s)
       + (if m = m' \<and> js_ge cp (Num (real m')) \<and> m' \<notin> trackedMilestonesRef s then 1 else 0)"
  "progress_pushes m (dataLayer (milestone_step p cp s m'))
     = progress_pushes m (dataLayer s)
       + (if m = m' \<and> js_ge cp (Num (real m')) \<and> m' \<notin> trackedMilestonesRef s
             \<and> dataLayer s \<noteq> None then 1 else 0)"
  "(dataLayer (milestone_step p cp s m') = None) = (dataLayer s = None)"
  by (auto simp: milestone_step_def Let_def progress_calls_track_progress dataLayer_push
      push_frame progress_pushes_append obj_spread_def)

lemma foldl_milestone_effect:
  "distinct ms \<Longrightarrow>
     trackedMilestonesRef (foldl (milestone_step p cp) s ms)
       = trackedMilestonesRef s \<union> {m' \<in> set ms. js_ge cp (Num (real m'))}
     \<and> progress_calls m (plausible (foldl (milestone_step p cp) s ms))
       = progress_calls m (plausible s)
         + (if m \<in> set ms \<and> js_ge cp (Num (real m)) \<and> m \<notin> trackedMilestonesRef s
            then 1 else 0)
     \<and> progress_pushes m (dataLayer (foldl (milestone_step p cp) s ms))
       = progress_pushes m (dataLayer s)
         + (if m \<in> set ms \<and> js_ge cp (Num (real m)) \<and> m \<notin> trackedMilestonesRef s
               \<and> dataLayer s \<noteq> None then 1 else 0)
     \<and> (dataLayer (foldl (milestone_step p cp) s ms) = None) = (dataLayer s = None)"
proof (induction ms arbitrary: s)
  case Nil
  then show ?case by simp
next
  case (Cons a ms)
  from Cons.prems have d: "distinct ms" and a: "a \<notin> set ms" by simp_all
  note IH = Cons.IH [OF d, of "milestone_step p cp s a"]
  show ?case
    using a by (simp add: IH milestone_step_effect) auto
qed

lemma handleTimeUpdate_effect:
  assumes "videoRef s = Some video"
  shows "trackedMilestonesRef (handleTimeUpdate p s)
       = trackedMilestonesRef s
         \<union> {m' \<in> set milestones.
              js_ge (js_mul (js_div (v_currentTime video) (v_duration video)) (Num 100))
                (Num (real m'))}"
    and "progress_calls m (plausible (handleTimeUpdate p s))
       = progress_calls m (plausible s)
         + (if m \<in> set milestones
               \<and> js_ge (js_mul (js_div (v_currentTime video) (v_duration video)) (Num 100))
                    (Num (real m))
               \<and> m \<notin> trackedMilestonesRef s then 1 else 0)"
    and "progress_pushes m (dataLayer (handleTimeUpdate p s))
       = progress_pushes m (dataLayer s)
         + (if m \<in> set milestones
               \<and> js_ge (js_mul (js_div (v_currentTime video) (v_duration video)) (Num 100))
                    (Num (real m))
               \<and> m \<notin> trackedMilestonesRef s \<and> dataLayer s \<noteq> None then 1 else 0)"
    and "(dataLayer (handleTimeUpdate p s) = None) = (dataLayer s = None)"
proof -
  let ?cp = "js_mul (js_div (v_currentTime video) (v_duration video)) (Num 100)"
  have d: "distinct milestones" by (simp add: milestones_def)
  have h: "handleTimeUpdate p s = foldl (milestone_step p ?cp) (s\<lparr>progress := ?cp\<rparr>) milestones"
    using assms by (simp add: handleTimeUpdate_def Let_def)
  note eff = foldl_milestone_effect [OF d, of p ?cp "s\<lparr>progress := ?cp\<rparr>"]
  show "trackedMilestonesRef (handleTimeUpdate p s)
       = trackedMilestonesRef s \<union> {m' \<in> set milestones. js_ge ?cp (Num (real m'))}"
    using eff [of m] by (simp add: h)
  show "progress_calls m (plausible (handleTimeUpdate p s))
       = progress_calls m (plausible s)
         + (if m \<in> set milestones \<and> js_ge ?cp (Num (real m))
               \<and> m \<notin> trackedMilestonesRef s then 1 else 0)"
    using eff [of m] by (simp add: h)
  show "progress_pushes m (dataLayer (handleTimeUpdate p s))
       = progress_pushes m (dataLayer s)
         + (if m \<in> set milestones \<and> js_ge ?cp (Num (real m))
               \<and> m \<notin> trackedMilestonesRef s \<and> dataLayer s \<noteq> None then 1 else 0)"
    using eff [of m] by (simp add: h)
  show "(dataLayer (handleTimeUpdate p s) = None) = (dataLayer s = None)"
    using eff [of m] by (simp add: h)
qed

lemma progress_inv_handleTimeUpdate: "progress_inv s \<Longrightarrow> progress_inv (handleTimeUpdate p s)"
proof (cases "videoRef s")
  case None
  assume "progress_inv s"
  with None show ?thesis by (simp add: handleTimeUpdate_def)
next
  case (Some video)
  assume "progress_inv s"
  then show ?thesis
    unfolding progress_inv_def
    by (auto simp: handleTimeUpdate_effect [OF Some])
qed


lemma progress_inv_track_first_play: "progress_inv s \<Longrightarrow> progress_inv (track_first_play p s)"
  by (simp add: track_first_play_def Let_def progress_inv_def trackVideoPlay_def
      progress_calls_track_other dataLayer_push push_frame progress_pushes_append obj_spread_def)

lemma progress_inv_togglePlayPause: "progress_inv s \<Longrightarrow> progress_inv (togglePlayPause p s)"
proof (cases "videoRef s")
  case None
  assume "progress_inv s"
  with None show ?thesis by (simp add: togglePlayPause_def)
next
  case (Some video)
  assume inv: "progress_inv s"
  show ?thesis
  proof (cases "v_paused video")
    case True
    have "progress_inv ((video_play s)\<lparr>isPaused := False\<rparr>)"
      using inv by (simp add: progress_inv_def video_play_def)
    then have "progress_inv (track_first_play p ((video_play s)\<lparr>isPaused := False\<rparr>))"
      by (rule progress_inv_track_first_play)
    with Some True show ?thesis by (simp add: togglePlayPause_def)
  next
    case False
    with Some inv show ?thesis
      by (simp add: togglePlayPause_def Let_def progress_inv_def video_pause_def
          trackVideoPause_def progress_calls_track_other dataLayer_push push_frame
          progress_pushes_append obj_spread_def)
  qed
qed

lemma progress_inv_handleVideoEnded: "progress_inv s \<Longrightarrow> progress_inv (handleVideoEnded p s)"
  by (simp add: handleVideoEnded_def Let_def progress_inv_def trackVideoComplete_def
      progress_calls_track_other dataLayer_push push_frame progress_pushes_append
      obj_spread_def milestones_def)

lemma progress_inv_toggleFullscreen:
  "progress_inv s \<Longrightarrow> toggleFullscreen res s = Inr s' \<Longrightarrow> progress_inv s'"
  by (auto simp: toggleFullscreen_def fullscreen_try_def progress_inv_def
      split: if_splits promise_result.splits)

lemma progress_inv_step: "progress_inv s \<Longrightarrow> progress_inv (step p e s)"
proof (cases e)
  case PlayClick
  assume "progress_inv s"
  then show ?thesis
    using PlayClick by (simp add: progress_inv_def commit_def handlePlayClick_def)
next
  case PlayTimer
  assume "progress_inv s"
  then have "progress_inv (video_play (s\<lparr>pendingPlay := pendingPlay s - 1\<rparr>))"
    by (simp add: progress_inv_def video_play_def)
  then show ?thesis
    using PlayTimer \<open>progress_inv s\<close>
    by (simp add: playTimeout_def progress_inv_track_first_play)
next
  case PlayPauseClick
  assume "progress_inv s"
  then show ?thesis
    using PlayPauseClick by (simp add: progress_inv_togglePlayPause)
next
  case MuteClick
  assume "progress_inv s"
  then show ?thesis
    using MuteClick by (simp add: progress_inv_def toggleMute_def split: option.splits)
next
  case (FullscreenClick res)
  assume "progress_inv s"
  then show ?thesis
    using FullscreenClick by (auto split: sum.splits dest: progress_inv_toggleFullscreen)
next
  case (FullscreenChange b)
  assume "progress_inv s"
  then show ?thesis
    using FullscreenChange by (simp add: progress_inv_def handleFullscreenChange_def)
next
  case TimeUpdate
  assume "progress_inv s"
  then show ?thesis
    using TimeUpdate by (simp add: progress_inv_handleTimeUpdate)
next
  case Ended
  assume "progress_inv s"
  then show ?thesis
    using Ended by (simp add: progress_inv_handleVideoEnded)
next
  case (Browser v)
  assume "progress_inv s"
  then show ?thesis
    using Browser by (simp add: progress_inv_def)
qed

lemma progress_inv_run: "progress_inv s \<Longrightarrow> progress_inv (run p s evs)"
  by (induction evs arbitrary: s) (simp_all add: run_def progress_inv_step)

lemma progress_inv_init: "progress_inv (init dl)"
  by (simp add: progress_inv_def init_def progress_calls_def progress_pushes_def)


lemma run_append: "run p s (evs @ evs') = run p (run p s evs) evs'"
  by (simp add: run_def)

subsection \<open>What a step never undoes\<close>

lemma track_first_play_frame:
  "isPlaying (track_first_play p s) = isPlaying s"
  "trackedMilestonesRef (track_first_play p s) = trackedMilestonesRef s"
  by (simp_all add: track_first_play_def Let_def push_frame)

lemma togglePlayPause_frame:
  "isPlaying (togglePlayPause p s) = isPlaying s"
  "trackedMilestonesRef (togglePlayPause p s) = trackedMilestonesRef s"
  "hasTrackedPlayRef s \<Longrightarrow> hasTrackedPlayRef (togglePlayPause p s)"
  by (simp_all add: togglePlayPause_def Let_def push_frame track_first_play_frame
      track_first_play_effect video_play_def video_pause_def split: option.splits)

lemma milestone_step_frame:
  "isPlaying (milestone_step p cp s m) = isPlaying s"
  "hasTrackedPlayRef (milestone_step p cp s m) = hasTrackedPlayRef s"
  by (simp_all add: milestone_step_def Let_def push_frame)

lemma foldl_milestone_frame:
  "isPlaying (foldl (milestone_step p cp) s ms) = isPlaying s
   \<and> hasTrackedPlayRef (foldl (milestone_step p cp) s ms) = hasTrackedPlayRef s"
  by (induction ms arbitrary: s) (simp_all add: milestone_step_frame)

lemma handleTimeUpdate_frame:
  "isPlaying (handleTimeUpdate p s) = isPlaying s"
  "hasTrackedPlayRef (handleTimeUpdate p s) = hasTrackedPlayRef s"
  by (simp_all add: handleTimeUpdate_def Let_def foldl_milestone_frame split: option.splits)

lemma handleTimeUpdate_keeps: "m \<in> trackedMilestonesRef s \<Longrightarrow> m \<in> trackedMilestonesRef (handleTimeUpdate p s)"
proof (cases "videoRef s")
  case None
  assume "m \<in> trackedMilestonesRef s"
  with None show ?thesis by (simp add: handleTimeUpdate_def)
next
  case (Some video)
  assume "m \<in> trackedMilestonesRef s"
  then show ?thesis by (simp add: handleTimeUpdate_effect(1) [OF Some])
qed

lemma handleVideoEnded_frame:
  "isPlaying (handleVideoEnded p s) = isPlaying s"
  "hasTrackedPlayRef (handleVideoEnded p s) = hasTrackedPlayRef s"
  "m \<in> trackedMilestonesRef s \<Longrightarrow> m \<in> trackedMilestonesRef (handleVideoEnded p s)"
  by (simp_all add: handleVideoEnded_def Let_def push_frame)

lemma toggleFullscreen_frame:
  "toggleFullscreen res s = Inr s' \<Longrightarrow>
     isPlaying s' = isPlaying s \<and> hasTrackedPlayRef s' = hasTrackedPlayRef s
     \<and> trackedMilestonesRef s' = trackedMilestonesRef s"
  by (auto simp: toggleFullscreen_def fullscreen_try_def split: if_splits promise_result.splits)

lemma step_keeps_playing: "isPlaying s \<Longrightarrow> isPlaying (step p e s)"
  by (cases e)
    (auto simp: playTimeout_def track_first_play_frame video_play_def togglePlayPause_frame
      toggleMute_def handleFullscreenChange_def handleTimeUpdate_frame handleVideoEnded_frame
      split: option.splits sum.splits dest: toggleFullscreen_frame)



lemma run_keeps_playing: "isPlaying s \<Longrightarrow> isPlaying (run p s evs)"
  by (induction evs arbitrary: s) (simp_all add: run_def step_keeps_playing)









lemma handleTimeUpdate_tracked:
  assumes "m \<in> trackedMilestonesRef s"
  shows "progress_calls m (plausible (handleTimeUpdate p s)) = progress_calls m (plausible s)
    \<and> progress_pushes m (dataLayer (handleTimeUpdate p s)) = progress_pushes m (dataLayer s)"
proof (cases "videoRef s")
  case None
  then show ?thesis by (simp add: handleTimeUpdate_def)
next
  case (Some video)
  show ?thesis using assms by (simp add: handleTimeUpdate_effect [OF Some])
qed

text \<open>
  C2. In a session that starts from the initial state, whatever events arrive and in
  whatever order, each of the milestones 25, 50 and 75 has been sent at most once to
  Plausible and at most once to the data layer, and it has been sent exactly when it is
  in the set of tracked milestones. A time update whose progress reaches a milestone
  that is not in the set sends it once and puts it into the set; a time update never
  sends a milestone that is in the set, whatever the progress is, and leaves it there.
\<close>

theorem milestones_fire_once:
  "(m \<in> {25, 50, 75} \<longrightarrow>
      progress_calls m (plausible (run p (init dl) evs)) \<le> 1
      \<and> progress_pushes m (dataLayer (run p (init dl) evs)) \<le> 1
      \<and> progress_calls m (plausible (run p (init dl) evs))
          = (if m \<in> trackedMilestonesRef (run p (init dl) evs) then 1 else 0))
   \<and> (m \<in> {25, 50, 75} \<and> videoRef s = Some video
        \<and> js_ge (js_mul (js_div (v_currentTime video) (v_duration video)) (Num 100))
             (Num (real m))
        \<and> m \<notin> trackedMilestonesRef s \<longrightarrow>
      m \<in> trackedMilestonesRef (handleTimeUpdate p s)
      \<and> progress_calls m (plausible (handleTimeUpdate p s))
          = progress_calls m (plausible s) + 1)
   \<and> (m \<in> trackedMilestonesRef s \<longrightarrow>
      m \<in> trackedMilestonesRef (handleTimeUpdate p s)
      \<and> progress_calls m (plausible (handleTimeUpdate p s)) = progress_calls m (plausible s)
      \<and> progress_pushes m (dataLayer (handleTimeUpdate p s))
          = progress_pushes m (dataLayer s))"
proof (intro conjI impI)
  have inv: "progress_inv (run p (init dl) evs)"
    using progress_inv_init by (rule progress_inv_run)
  {
    assume m: "m \<in> {25, 50, 75}"
    then have ms: "m \<in> set milestones" by (simp add: milestones_def)
    from inv show "progress_calls m (plausible (run p (init dl) evs)) \<le> 1"
      by (simp add: progress_inv_def)
    from inv show "progress_pushes m (dataLayer (run p (init dl) evs)) \<le> 1"
      by (simp add: progress_inv_def)
    from inv ms show "progress_calls m (plausible (run p (init dl) evs))
          = (if m \<in> trackedMilestonesRef (run p (init dl) evs) then 1 else 0)"
      by (simp add: progress_inv_def)
  }
  {
    assume a: "m \<in> {25, 50, 75} \<and> videoRef s = Some video
        \<and> js_ge (js_mul (js_div (v_currentTime video) (v_duration video)) (Num 100))
             (Num (real m))
        \<and> m \<notin> trackedMilestonesRef s"
    then have v: "videoRef s = Some video" and ms: "m \<in> set milestones"
      by (simp_all add: milestones_def)
    from a ms show "m \<in> trackedMilestonesRef (handleTimeUpdate p s)"
      by (simp add: handleTimeUpdate_effect(1) [OF v])
    from a ms show "progress_calls m (plausible (handleTimeUpdate p s))
          = progress_calls m (plausible s) + 1"
      by (simp add: handleTimeUpdate_effect(2) [OF v])
  }
  {
    assume t: "m \<in> trackedMilestonesRef s"
    then show "m \<in> trackedMilestonesRef (handleTimeUpdate p s)"
      by (rule handleTimeUpdate_keeps)
    from t show "progress_calls m (plausible (handleTimeUpdate p s)) = progress_calls m (plausible s)"
      by (simp add: handleTimeUpdate_tracked)
    from t show "progress_pushes m (dataLayer (handleTimeUpdate p s))
          = progress_pushes m (dataLayer s)"
      by (simp add: handleTimeUpdate_tracked)
  }
qed

subsection \<open>A concrete session\<close>

lemmas session_defs =
  run_def example_session_def example_props_def example_video_def init_def commit_def
  handlePlayClick_def playTimeout_def video_play_def video_pause_def track_first_play_def
  togglePlayPause_def trackVideoPause_def
  getVideoEventProps_def trackVideoPlay_def trackEvent_def Object_keys_def pushToDataLayer_def
  obj_spread_def handleTimeUpdate_def milestones_def milestone_step_def trackVideoProgress_def
  handleVideoEnded_def trackVideoComplete_def opt_str_def opt_num_def Let_def

lemma example_session_tracked:
  "trackedMilestonesRef (run example_props (init True) example_session) = {100, 50, 25}"
  by (simp add: session_defs)

theorem milestones_fire_once_witness:
  "progress_calls 25 (plausible (run example_props (init True) example_session)) = 1
   \<and> progress_calls 75 (plausible (run example_props (init True) example_session)) = 0
   \<and> 25 \<in> trackedMilestonesRef
        (handleTimeUpdate example_props ((init True)\<lparr>videoRef := Some (example_video 30)\<rparr>))
   \<and> progress_calls 25 (plausible
        (handleTimeUpdate example_props ((init True)\<lparr>videoRef := Some (example_video 30)\<rparr>)))
      = 1
   \<and> progress_calls 25 (plausible
        (handleTimeUpdate example_props
          (handleTimeUpdate example_props ((init True)\<lparr>videoRef := Some (example_video 30)\<rparr>))))
      = 1"
proof -
  let ?s = "(init True)\<lparr>videoRef := Some (example_video 30)\<rparr>"
  have m25: "(25::nat) \<in> {25, 50, 75}" and m75: "(75::nat) \<in> {25, 50, 75}"
    by simp_all
  have a: "progress_calls 25 (plausible (run example_props (init True) example_session)) = 1"
    using milestones_fire_once [of 25 example_props True example_session] m25
    by (simp add: example_session_tracked)
  have b: "progress_calls 75 (plausible (run example_props (init True) example_session)) = 0"
    using milestones_fire_once [of 75 example_props True example_session] m75
    by (simp add: example_session_tracked)
  have hyp: "(25::nat) \<in> {25, 50, 75} \<and> videoRef ?s = Some (example_video 30)
      \<and> js_ge (js_mul (js_div (v_currentTime (example_video 30)) (v_duration (example_video 30)))
           (Num 100)) (Num (real (25::nat)))
      \<and> 25 \<notin> trackedMilestonesRef ?s"
    by (simp add: init_def example_video_def)
  have zero: "progress_calls 25 (plausible ?s) = 0"
    by (simp add: init_def progress_calls_def)
  from milestones_fire_once [where m = 25 and s = ?s and video = "example_video 30"
      and p = example_props] hyp
  have c: "25 \<in> trackedMilestonesRef (handleTimeUpdate example_props ?s)"
    and d: "progress_calls 25 (plausible (handleTimeUpdate example_props ?s))
          = progress_calls 25 (plausible ?s) + 1"
    by blast+
  from milestones_fire_once [where m = 25 and s = "handleTimeUpdate example_props ?s"
      and p = example_props] c
  have e: "progress_calls 25 (plausible (handleTimeUpdate example_props (handleTimeUpdate example_props ?s)))
      = progress_calls 25 (plausible (handleTimeUpdate example_props ?s))"
    by blast
  from a b c d e zero show ?thesis by simp
qed


section \<open>The play event and the poster\<close>








section \<open>The completion event\<close>




section \<open>Properties of the assistant links\<close>

lemma hex_digits_checked:
  "list_all (\<lambda>n. hex_val (hex_digit n) = Some n
      \<and> hex_digit n \<notin> {CHR ''&'', CHR ''='', CHR ''#'', CHR ''?''}) [0..<16]"
  by code_simp

lemma hex_val_digit: "n < 16 \<Longrightarrow> hex_val (hex_digit n) = Some n"
  using hex_digits_checked by (simp add: list_all_iff)

lemma hex_digit_plain:
  "n < 16 \<Longrightarrow> hex_digit n \<notin> {CHR ''&'', CHR ''='', CHR ''#'', CHR ''?''}"
  using hex_digits_checked by (simp add: list_all_iff)

lemma form_decode_plain:
  "c \<noteq> CHR ''+'' \<Longrightarrow> c \<noteq> CHR ''%'' \<Longrightarrow> form_decode (c # cs) = c # form_decode cs"
proof (cases cs)
  case Nil
  assume "c \<noteq> CHR ''+''" "c \<noteq> CHR ''%''"
  with Nil show ?thesis by simp
next
  case (Cons d ds)
  assume "c \<noteq> CHR ''+''" "c \<noteq> CHR ''%''"
  with Cons show ?thesis by (cases ds) simp_all
qed

lemma form_decode_plus: "form_decode (CHR ''+'' # cs) = CHR '' '' # form_decode cs"
proof (cases cs)
  case Nil
  then show ?thesis by simp
next
  case (Cons d ds)
  then show ?thesis by (cases ds) simp_all
qed

lemma form_decode_escape:
  "hex_val h1 = Some a \<Longrightarrow> hex_val h2 = Some b \<Longrightarrow>
     form_decode (CHR ''%'' # h1 # h2 # cs) = char_of (a * 16 + b) # form_decode cs"
  by simp

lemma unreserved_plain:
  "form_unreserved c \<Longrightarrow>
     c \<notin> {CHR ''+'', CHR ''%'', CHR ''&'', CHR ''='', CHR ''#'', CHR ''?''}"
  by (auto simp: form_unreserved_def)

lemma char_split: "char_of ((of_char c :: nat) div 16 * 16 + of_char c mod 16) = c"
  by simp

lemma of_char_div_16: "(of_char c :: nat) div 16 < 16"
proof -
  have "(of_char c :: nat) < 256" by simp
  then show ?thesis by arith
qed

lemma form_decode_byte: "form_decode (form_encode_byte c @ cs) = c # form_decode cs"
proof (cases "form_unreserved c")
  case True
  then have "c \<noteq> CHR ''+''" "c \<noteq> CHR ''%''"
    using unreserved_plain [of c] by auto
  with True show ?thesis
    by (simp add: form_encode_byte_def form_decode_plain)
next
  case False
  show ?thesis
  proof (cases "c = CHR '' ''")
    case True
    with False show ?thesis
      by (simp add: form_encode_byte_def form_decode_plus del: form_decode.simps)
  next
    case space: False
    have h1: "hex_val (hex_digit (of_char c div 16)) = Some (of_char c div 16)"
      by (rule hex_val_digit) (rule of_char_div_16)
    have h2: "hex_val (hex_digit (of_char c mod 16)) = Some (of_char c mod 16)"
      by (rule hex_val_digit) simp
    have "form_decode (CHR ''%'' # hex_digit (of_char c div 16) # hex_digit (of_char c mod 16) # cs)
        = char_of ((of_char c :: nat) div 16 * 16 + of_char c mod 16) # form_decode cs"
      using h1 h2 by (rule form_decode_escape)
    with False space show ?thesis
      by (simp add: form_encode_byte_def char_split del: form_decode.simps)
  qed
qed

lemma form_decode_encode_append: "form_decode (form_encode s @ cs) = s @ form_decode cs"
  by (induction s) (simp_all add: form_encode_def form_decode_byte del: form_decode.simps)

lemma form_decode_encode: "form_decode (form_encode s) = s"
  using form_decode_encode_append [of s "[]"] by simp

lemma form_encode_byte_plain:
  "x \<in> set (form_encode_byte c) \<Longrightarrow> x \<notin> {CHR ''&'', CHR ''='', CHR ''#'', CHR ''?''}"
proof (cases "form_unreserved c")
  case True
  assume "x \<in> set (form_encode_byte c)"
  with True have "x = c" by (simp add: form_encode_byte_def)
  with True show ?thesis using unreserved_plain [of c] by auto
next
  case False
  assume x: "x \<in> set (form_encode_byte c)"
  show ?thesis
  proof (cases "c = CHR '' ''")
    case True
    with False x show ?thesis by (simp add: form_encode_byte_def)
  next
    case space: False
    from False space x have "x = CHR ''%'' \<or> x = hex_digit (of_char c div 16)
        \<or> x = hex_digit (of_char c mod 16)"
      by (simp add: form_encode_byte_def)
    moreover have "hex_digit (of_char c div 16) \<notin> {CHR ''&'', CHR ''='', CHR ''#'', CHR ''?''}"
      by (rule hex_digit_plain) (rule of_char_div_16)
    moreover have "hex_digit (of_char c mod 16) \<notin> {CHR ''&'', CHR ''='', CHR ''#'', CHR ''?''}"
      by (rule hex_digit_plain) simp
    ultimately show ?thesis by auto
  qed
qed

lemma form_encode_plain:
  "x \<in> set (form_encode s) \<Longrightarrow> x \<notin> {CHR ''&'', CHR ''='', CHR ''#'', CHR ''?''}"
  by (auto simp: form_encode_def dest: form_encode_byte_plain)


lemma split_on_single: "sep \<notin> set a \<Longrightarrow> split_on sep a = [a]"
  by (induction a) auto

lemma split_on_append:
  "sep \<notin> set a \<Longrightarrow> split_on sep (a @ sep # b) = a # split_on sep b"
  by (induction a) auto

lemma pair_text_no_amp: "CHR ''&'' \<notin> set (pair_text e)"
  using form_encode_plain [of "CHR ''&''"] by (auto simp: pair_text_def)

lemma pair_text_no_hash: "CHR ''#'' \<notin> set (pair_text e)"
  using form_encode_plain [of "CHR ''#''"] by (auto simp: pair_text_def)

lemma pair_text_nonempty: "pair_text e \<noteq> []"
  by (simp add: pair_text_def)

lemma parse_pair_text: "parse_pair (pair_text e) = e"
proof -
  have k: "\<forall>x\<in>set (form_encode (fst e)). x \<noteq> CHR ''=''"
    using form_encode_plain by auto
  have t: "takeWhile (\<lambda>c. c \<noteq> CHR ''='') (form_encode (fst e) @ CHR ''='' # form_encode (snd e))
      = form_encode (fst e)"
    using k by simp
  have d: "dropWhile (\<lambda>c. c \<noteq> CHR ''='') (form_encode (fst e) @ CHR ''='' # form_encode (snd e))
      = CHR ''='' # form_encode (snd e)"
    using k by simp
  show ?thesis
    by (simp add: parse_pair_def pair_text_def t d form_decode_encode del: form_decode.simps)
qed

lemma toString_pairs:
  "URLSearchParams_toString entries = join_with ''&'' (map pair_text entries)"
  by (simp add: URLSearchParams_toString_def)

lemma join_no_hash: "CHR ''#'' \<notin> set (join_with ''&'' (map pair_text entries))"
  by (induction entries rule: induct_list012) (simp_all add: pair_text_no_hash)

lemma split_join:
  "entries \<noteq> [] \<Longrightarrow>
     split_on CHR ''&'' (join_with ''&'' (map pair_text entries)) = map pair_text entries"
proof (induction entries rule: induct_list012)
  case 1
  then show ?case by simp
next
  case (2 x)
  show ?case by (simp add: split_on_single pair_text_no_amp)
next
  case (3 x y zs)
  have "split_on CHR ''&'' (pair_text x @ CHR ''&'' # join_with ''&'' (map pair_text (y # zs)))
      = pair_text x # split_on CHR ''&'' (join_with ''&'' (map pair_text (y # zs)))"
    by (rule split_on_append) (rule pair_text_no_amp)
  with 3 show ?case by simp
qed

lemma parse_query_toString: "parse_query (URLSearchParams_toString entries) = entries"
proof (cases "entries = []")
  case True
  then show ?thesis
    by (simp add: parse_query_def URLSearchParams_toString_def)
next
  case False
  have "filter (\<lambda>seg. seg \<noteq> []) (map pair_text entries) = map pair_text entries"
    by (simp add: filter_id_conv pair_text_nonempty)
  then show ?thesis
    by (simp add: parse_query_def toString_pairs split_join [OF False] parse_pair_text
        map_idI del: form_decode.simps)
qed

lemma url_query_of:
  assumes "CHR ''?'' \<notin> set base"
  shows "url_query (base @ ''?'' @ URLSearchParams_toString entries)
     = URLSearchParams_toString entries"
proof -
  have "dropWhile (\<lambda>c. c \<noteq> CHR ''?'') (base @ CHR ''?'' # URLSearchParams_toString entries)
      = CHR ''?'' # URLSearchParams_toString entries"
    using assms by (induction base) auto
  moreover have "takeWhile (\<lambda>c. c \<noteq> CHR ''#'') (URLSearchParams_toString entries)
      = URLSearchParams_toString entries"
    using join_no_hash [of entries] by (auto simp: toString_pairs)
  ultimately show ?thesis by (simp add: url_query_def)
qed

lemma query_param_of:
  assumes "CHR ''?'' \<notin> set base"
  shows "query_param k (base @ ''?'' @ URLSearchParams_toString entries) = map_of entries k"
  by (simp only: query_param_def url_query_of [OF assms] parse_query_toString)


lemma ViewOptions_items_window:
  assumes "new_URL markdownUrl origin = Some full"
  shows "ViewOptions_items new_URL (Some origin) markdownUrl githubUrl =
     Inr [\<lparr>title_opt = ''Open in GitHub'', href_opt = githubUrl\<rparr>,
          \<lparr>title_opt = ''Open in ChatGPT'',
           href_opt = ''https://chatgpt.com/'' @ ''?''
              @ URLSearchParams_toString [(''hints'', ''search''), (''q'', ask_prompt full)]\<rparr>,
          \<lparr>title_opt = ''Open in Claude'',
           href_opt = ''https://claude.ai/new'' @ ''?''
              @ URLSearchParams_toString [(''q'', ask_prompt full)]\<rparr>,
          \<lparr>title_opt = ''Open in T3 Chat'',
           href_opt = ''https://t3.chat/new'' @ ''?''
              @ URLSearchParams_toString [(''q'', ask_prompt full)]\<rparr>,
          \<lparr>title_opt = ''Open in Scira AI'',
           href_opt = ''https://scira.ai/'' @ ''?''
              @ URLSearchParams_toString [(''q'', ask_prompt full)]\<rparr>]"
  using assms by (simp add: ViewOptions_items_def Let_def)

lemma ViewOptions_items_no_window:
  "ViewOptions_items new_URL None markdownUrl githubUrl = Inr items \<Longrightarrow>
     query_param ''q'' (href_opt (items ! 2)) = Some (ask_prompt ''loading'')"
proof -
  assume "ViewOptions_items new_URL None markdownUrl githubUrl = Inr items"
  then have "href_opt (items ! 2) = ''https://claude.ai/new'' @ ''?''
      @ URLSearchParams_toString [(''q'', ask_prompt ''loading'')]"
    by (auto simp: ViewOptions_items_def Let_def)
  moreover have "query_param ''q'' (''https://claude.ai/new'' @ ''?''
      @ URLSearchParams_toString [(''q'', ask_prompt ''loading'')]) = map_of [(''q'', ask_prompt ''loading'')] ''q''"
    by (rule query_param_of) simp
  ultimately show ?thesis by simp
qed

text \<open>
  C8, as the specification states it, fails where the component is rendered without
  a window: the source then puts the text \<^verbatim>\<open>loading\<close> in place of the resolved URL,
  and the parameter q of every assistant link is
  \<^verbatim>\<open>Read loading, I want to ask questions about it.\<close>, which is not the prompt for
  the markdown URL resolved against an origin.
\<close>

theorem ViewOptions_no_window_counterexample:
  "ViewOptions_items example_new_URL None ''/llm-docs/index.mdx.md''
       ''https://github.com/MotiaDev/motia-docs''
     = Inr [\<lparr>title_opt = ''Open in GitHub'',
             href_opt = ''https://github.com/MotiaDev/motia-docs''\<rparr>,
            \<lparr>title_opt = ''Open in ChatGPT'',
             href_opt = ''https://chatgpt.com/?hints=search&q=Read+loading%2C+I+want+to+ask+questions+about+it.''\<rparr>,
            \<lparr>title_opt = ''Open in Claude'',
             href_opt = ''https://claude.ai/new?q=Read+loading%2C+I+want+to+ask+questions+about+it.''\<rparr>,
            \<lparr>title_opt = ''Open in T3 Chat'',
             href_opt = ''https://t3.chat/new?q=Read+loading%2C+I+want+to+ask+questions+about+it.''\<rparr>,
            \<lparr>title_opt = ''Open in Scira AI'',
             href_opt = ''https://scira.ai/?q=Read+loading%2C+I+want+to+ask+questions+about+it.''\<rparr>]
   \<and> query_param ''q''
         ''https://claude.ai/new?q=Read+loading%2C+I+want+to+ask+questions+about+it.''
       = Some ''Read loading, I want to ask questions about it.''
   \<and> example_new_URL ''/llm-docs/index.mdx.md'' ''https://www.motia.dev''
       = Some ''https://www.motia.dev/llm-docs/index.mdx.md''
   \<and> query_param ''q''
         ''https://claude.ai/new?q=Read+loading%2C+I+want+to+ask+questions+about+it.''
       \<noteq> Some (ask_prompt ''https://www.motia.dev/llm-docs/index.mdx.md'')"
  by code_simp

text \<open>
  C8, amended. In the browser, where a window exists and the URL constructor resolves
  markdownUrl against the origin of the window to the absolute URL \<open>full\<close>,
  ViewOptions produces five items. The first links to the given githubUrl. Each of the
  other four (ChatGPT, Claude, T3 Chat, Scira AI) has an href that starts with the
  address of its assistant and whose query string carries the parameter q with the value
  \<^verbatim>\<open>Read <full>, I want to ask questions about it.\<close>
\<close>

theorem ViewOptions_prompt:
  "new_URL markdownUrl origin = Some full \<longrightarrow>
     (\<exists>items. ViewOptions_items new_URL (Some origin) markdownUrl githubUrl = Inr items
        \<and> map title_opt items =
            [''Open in GitHub'', ''Open in ChatGPT'', ''Open in Claude'', ''Open in T3 Chat'',
             ''Open in Scira AI'']
        \<and> href_opt (items ! 0) = githubUrl
        \<and> prefix ''https://chatgpt.com/?'' (href_opt (items ! 1))
        \<and> prefix ''https://claude.ai/new?'' (href_opt (items ! 2))
        \<and> prefix ''https://t3.chat/new?'' (href_opt (items ! 3))
        \<and> prefix ''https://scira.ai/?'' (href_opt (items ! 4))
        \<and> (\<forall>i \<in> {1, 2, 3, 4}.
              query_param ''q'' (href_opt (items ! i))
                = Some (''Read '' @ full @ '', I want to ask questions about it.'')))"
proof
  assume "new_URL markdownUrl origin = Some full"
  note items = ViewOptions_items_window [where new_URL = new_URL and markdownUrl = markdownUrl
      and origin = origin and full = full and githubUrl = githubUrl, OF this]
  have q1: "query_param ''q'' (''https://chatgpt.com/'' @ ''?''
      @ URLSearchParams_toString [(''hints'', ''search''), (''q'', ask_prompt full)])
      = map_of [(''hints'', ''search''), (''q'', ask_prompt full)] ''q''"
    by (rule query_param_of) simp
  have q2: "query_param ''q'' (''https://claude.ai/new'' @ ''?''
      @ URLSearchParams_toString [(''q'', ask_prompt full)]) = map_of [(''q'', ask_prompt full)] ''q''"
    by (rule query_param_of) simp
  have q3: "query_param ''q'' (''https://t3.chat/new'' @ ''?''
      @ URLSearchParams_toString [(''q'', ask_prompt full)]) = map_of [(''q'', ask_prompt full)] ''q''"
    by (rule query_param_of) simp
  have q4: "query_param ''q'' (''https://scira.ai/'' @ ''?''
      @ URLSearchParams_toString [(''q'', ask_prompt full)]) = map_of [(''q'', ask_prompt full)] ''q''"
    by (rule query_param_of) simp
  have p: "ask_prompt full = ''Read '' @ full @ '', I want to ask questions about it.''"
    by (simp add: ask_prompt_def)
  show "\<exists>items. ViewOptions_items new_URL (Some origin) markdownUrl githubUrl = Inr items
        \<and> map title_opt items =
            [''Open in GitHub'', ''Open in ChatGPT'', ''Open in Claude'', ''Open in T3 Chat'',
             ''Open in Scira AI'']
        \<and> href_opt (items ! 0) = githubUrl
        \<and> prefix ''https://chatgpt.com/?'' (href_opt (items ! 1))
        \<and> prefix ''https://claude.ai/new?'' (href_opt (items ! 2))
        \<and> prefix ''https://t3.chat/new?'' (href_opt (items ! 3))
        \<and> prefix ''https://scira.ai/?'' (href_opt (items ! 4))
        \<and> (\<forall>i \<in> {1, 2, 3, 4}.
              query_param ''q'' (href_opt (items ! i))
                = Some (''Read '' @ full @ '', I want to ask questions about it.''))"
    unfolding items
    apply (intro exI conjI)
           apply (rule refl)
          apply simp
         apply simp
        apply simp
       apply simp
      apply simp
     apply simp
    using q1 q2 q3 q4 p apply simp
    done
qed


lemma example_claude_href:
  "map_sum id (\<lambda>items. href_opt (items ! 2))
     (ViewOptions_items (\<lambda>rel base. Some (base @ rel)) (Some ''https://www.motia.dev'')
        ''/llm-docs/index.mdx.md'' ''https://github.com/MotiaDev/motia-docs'')
   = Inr ''https://claude.ai/new?q=Read+https%3A%2F%2Fwww.motia.dev%2Fllm-docs%2Findex.mdx.md%2C+I+want+to+ask+questions+about+it.''"
  by code_simp

theorem ViewOptions_prompt_witness:
  "\<exists>items. ViewOptions_items (\<lambda>rel base. Some (base @ rel)) (Some ''https://www.motia.dev'')
        ''/llm-docs/index.mdx.md'' ''https://github.com/MotiaDev/motia-docs'' = Inr items
     \<and> href_opt (items ! 0) = ''https://github.com/MotiaDev/motia-docs''
     \<and> query_param ''q'' (href_opt (items ! 1))
         = Some ''Read https://www.motia.dev/llm-docs/index.mdx.md, I want to ask questions about it.''
     \<and> query_param ''q'' (href_opt (items ! 4))
         = Some ''Read https://www.motia.dev/llm-docs/index.mdx.md, I want to ask questions about it.''"
proof -
  have r: "(\<lambda>rel base. Some (base @ rel)) ''/llm-docs/index.mdx.md'' ''https://www.motia.dev''
      = Some ''https://www.motia.dev/llm-docs/index.mdx.md''"
    by simp
  from ViewOptions_prompt [where new_URL = "\<lambda>rel base. Some (base @ rel)"
      and markdownUrl = "''/llm-docs/index.mdx.md''" and origin = "''https://www.motia.dev''"
      and full = "''https://www.motia.dev/llm-docs/index.mdx.md''"
      and githubUrl = "''https://github.com/MotiaDev/motia-docs''"] r
  obtain items where
    "ViewOptions_items (\<lambda>rel base. Some (base @ rel)) (Some ''https://www.motia.dev'')
        ''/llm-docs/index.mdx.md'' ''https://github.com/MotiaDev/motia-docs'' = Inr items"
    and "href_opt (items ! 0) = ''https://github.com/MotiaDev/motia-docs''"
    and "\<forall>i \<in> {1, 2, 3, 4}. query_param ''q'' (href_opt (items ! i))
        = Some (''Read '' @ ''https://www.motia.dev/llm-docs/index.mdx.md''
            @ '', I want to ask questions about it.'')"
    by blast
  then show ?thesis
    by (intro exI [of _ items]) simp
qed

end
